theory Spec2Isabelle
  imports Main
begin

section \<open>Data model\<close>

text \<open>
  The service keeps one SQLite table \<open>tasks\<close> (created by \<open>InitDB\<close>) and serves it over
  HTTP. The embedding has three layers, as the source has: the SQL statements the code sends
  (pure functions on the table), the functions of package \<open>utils\<close> that send them, and the
  request handlers of \<open>main\<close>.

  Go's \<open>int\<close> is 64 bits wide on the platforms the service runs on. Integers are modelled
  as \<open>int\<close>; where the Go code adds or multiplies, the two's-complement wrap-around is
  written out with \<open>wrap64\<close>. An instant returned by \<open>time.Now()\<close> is a natural number.
\<close>

type_synonym time = nat

definition wrap64 :: "int \<Rightarrow> int" where
  "wrap64 x = (x + 2 ^ 63) mod 2 ^ 64 - 2 ^ 63"

text \<open>\<open>models.Task\<close>; also one row of table \<open>tasks\<close>, column by column.\<close>

record task =
  ID :: int
  Title :: string
  Description :: string
  Position :: int
  CreatedAt :: time
  UpdatedAt :: time

text \<open>
  The database file: the rows of \<open>tasks\<close> in insertion order, and the entry of
  \<open>sqlite_sequence\<close> that \<open>AUTOINCREMENT\<close> keeps for the table (the largest rowid ever
  handed out; 0 before the first insert). Column \<open>position\<close> carries an index
  (\<open>idx_position\<close>) but no \<open>UNIQUE\<close> constraint, so the table itself accepts any position.
\<close>

record db =
  rows :: "task list"
  autoinc :: int

definition InitDB :: db where
  "InitDB = \<lparr>rows = [], autoinc = 0\<rparr>"

section \<open>The environment: failing database calls and the clock\<close>

text \<open>
  Every call into \<open>database/sql\<close> can return an error, and every \<open>time.Now()\<close> reads the
  clock. Both are inputs of an operation: \<open>flt k\<close> tells whether the \<open>k\<close>-th fallible
  database call the operation makes fails, \<open>clk k\<close> is the instant its \<open>k\<close>-th reading of
  the clock returns. A callee is handed the streams moved on by what the caller has
  already used (\<open>later\<close>). A call that fails writes nothing.
\<close>

type_synonym faults = "nat \<Rightarrow> bool"
type_synonym clock = "nat \<Rightarrow> time"

definition later :: "nat \<Rightarrow> (nat \<Rightarrow> 'a) \<Rightarrow> (nat \<Rightarrow> 'a)" where
  "later n f = (\<lambda>k. f (n + k))"

definition no_faults :: faults where
  "no_faults = (\<lambda>k. False)"

definition fail_at :: "nat \<Rightarrow> faults" where
  "fail_at n = (\<lambda>k. k = n)"

definition ticks :: clock where
  "ticks = (\<lambda>k. 100 + k)"

datatype err = DbError

section \<open>The SQL statements\<close>

text \<open>
  \<open>INSERT INTO tasks (title, description, position, created_at, updated_at)\<close>: the id is
  not given, so SQLite allocates it. With \<open>AUTOINCREMENT\<close> the new rowid is one more than
  the larger of the largest rowid in the table and the \<open>sqlite_sequence\<close> entry, which is
  then set to it. (SQLite refuses the insert once rowid \<open>2^63 - 1\<close> has been used; the
  model leaves ids unbounded.)
\<close>

definition next_rowid :: "db \<Rightarrow> int" where
  "next_rowid d = max (autoinc d) (fold max (map ID (rows d)) 0) + 1"

definition insert_row :: "string \<Rightarrow> string \<Rightarrow> int \<Rightarrow> time \<Rightarrow> time \<Rightarrow> db \<Rightarrow> int \<times> db" where
  "insert_row title description position created updated d =
     (let i = next_rowid d in
      (i, d\<lparr>rows := rows d @
                [\<lparr>ID = i, Title = title, Description = description, Position = position,
                  CreatedAt = created, UpdatedAt = updated\<rparr>],
             autoinc := i\<rparr>))"

text \<open>\<open>UPDATE tasks SET title = ?, description = ?, position = ?, updated_at = ? WHERE id = ?\<close>\<close>

definition update_row :: "int \<Rightarrow> string \<Rightarrow> string \<Rightarrow> int \<Rightarrow> time \<Rightarrow> db \<Rightarrow> db" where
  "update_row i title description position updated d =
     d\<lparr>rows := map (\<lambda>r. if ID r = i
                          then r\<lparr>Title := title, Description := description,
                                 Position := position, UpdatedAt := updated\<rparr>
                          else r) (rows d)\<rparr>"

text \<open>\<open>UPDATE tasks SET position = ?, updated_at = ? WHERE id = ?\<close>\<close>

definition update_position :: "int \<Rightarrow> int \<Rightarrow> time \<Rightarrow> db \<Rightarrow> db" where
  "update_position i position updated d =
     d\<lparr>rows := map (\<lambda>r. if ID r = i then r\<lparr>Position := position, UpdatedAt := updated\<rparr>
                          else r) (rows d)\<rparr>"

text \<open>\<open>DELETE FROM tasks WHERE id = ?\<close> and \<open>DELETE FROM tasks\<close>\<close>

definition delete_row :: "int \<Rightarrow> db \<Rightarrow> db" where
  "delete_row i d = d\<lparr>rows := filter (\<lambda>r. ID r \<noteq> i) (rows d)\<rparr>"

definition delete_rows :: "db \<Rightarrow> db" where
  "delete_rows d = d\<lparr>rows := []\<rparr>"

text \<open>\<open>SELECT COUNT\<close> of all rows, of the rows with a given id, of the rows with a given position.\<close>

definition count_all :: "db \<Rightarrow> int" where
  "count_all d = int (length (rows d))"

definition count_id :: "int \<Rightarrow> db \<Rightarrow> int" where
  "count_id i d = int (length (filter (\<lambda>r. ID r = i) (rows d)))"

definition count_position :: "int \<Rightarrow> db \<Rightarrow> int" where
  "count_position p d = int (length (filter (\<lambda>r. Position r = p) (rows d)))"

text \<open>
  \<open>SELECT ... FROM tasks ORDER BY position ASC LIMIT ? OFFSET ?\<close>. SQLite leaves the order
  of rows with equal keys open; the model keeps them in table order (a stable sort). A
  negative \<open>LIMIT\<close> means no limit, a negative \<open>OFFSET\<close> means none.
\<close>

definition select_page :: "int \<Rightarrow> int \<Rightarrow> db \<Rightarrow> task list" where
  "select_page limit offset d =
     (let rest = drop (nat offset) (sort_key Position (rows d))
      in if limit < 0 then rest else take (nat limit) rest)"

text \<open>\<open>SELECT ... FROM tasks ORDER BY id DESC LIMIT 1\<close>\<close>

definition select_last :: "db \<Rightarrow> task option" where
  "select_last d = (case rev (sort_key ID (rows d)) of [] \<Rightarrow> None | r # _ \<Rightarrow> Some r)"

section \<open>Package utils\<close>

text \<open>
  \<open>AddTask\<close>: \<open>db.Exec\<close> of the insert with two clock readings, then
  \<open>result.LastInsertId()\<close>, then the returned struct with two more readings.
\<close>

definition AddTask :: "faults \<Rightarrow> clock \<Rightarrow> string \<Rightarrow> string \<Rightarrow> int \<Rightarrow> db \<Rightarrow> (err + task) \<times> db" where
  "AddTask flt clk title description position d =
     (if flt 0 then (Inl DbError, d)
      else case insert_row title description position (clk 0) (clk 1) d of
        (i, d') \<Rightarrow>
          if flt 1 then (Inl DbError, d')
          else (Inr \<lparr>ID = i, Title = title, Description = description, Position = position,
                     CreatedAt = clk 2, UpdatedAt = clk 3\<rparr>, d'))"

definition GetPaginatedTasks :: "faults \<Rightarrow> int \<Rightarrow> int \<Rightarrow> db \<Rightarrow> err + (task list \<times> int)" where
  "GetPaginatedTasks flt offset limit d =
     (if flt 0 then Inl DbError
      else if flt 1 then Inl DbError
      else Inr (select_page limit offset d, count_all d))"

definition UpdateTask :: "faults \<Rightarrow> clock \<Rightarrow> int \<Rightarrow> string \<Rightarrow> string \<Rightarrow> int \<Rightarrow> db \<Rightarrow> err option \<times> db" where
  "UpdateTask flt clk i title description position d =
     (if flt 0 then (Some DbError, d)
      else (None, update_row i title description position (clk 0) d))"

definition DeleteTask :: "faults \<Rightarrow> int \<Rightarrow> db \<Rightarrow> err option \<times> db" where
  "DeleteTask flt i d = (if flt 0 then (Some DbError, d) else (None, delete_row i d))"

definition DeleteAllTasks :: "faults \<Rightarrow> db \<Rightarrow> err option \<times> db" where
  "DeleteAllTasks flt d = (if flt 0 then (Some DbError, d) else (None, delete_rows d))"

definition CheckTaskExists :: "faults \<Rightarrow> int \<Rightarrow> db \<Rightarrow> err + bool" where
  "CheckTaskExists flt i d = (if flt 0 then Inl DbError else Inr (count_id i d > 0))"

definition CheckPositionExists :: "faults \<Rightarrow> int \<Rightarrow> db \<Rightarrow> err + bool" where
  "CheckPositionExists flt p d = (if flt 0 then Inl DbError else Inr (count_position p d > 0))"

text \<open>\<open>GetLastTask\<close>: \<open>sql.ErrNoRows\<close> is the result \<open>nil, nil\<close>.\<close>

definition GetLastTask :: "faults \<Rightarrow> db \<Rightarrow> err + task option" where
  "GetLastTask flt d = (if flt 0 then Inl DbError else Inr (select_last d))"

text \<open>\<open>fmt.Sprintf("%d", x)\<close>: the decimal numeral of an integer.\<close>

fun digits :: "nat \<Rightarrow> string" where
  "digits n = (if n < 10 then [char_of (48 + n)]
               else digits (n div 10) @ [char_of (48 + n mod 10)])"

declare digits.simps [simp del]

definition show_int :: "int \<Rightarrow> string" where
  "show_int x = (if x < 0 then CHR ''-'' # digits (nat (- x)) else digits (nat x))"

text \<open>
  \<open>GenerateDummyTasks\<close>. The loop \<open>for i := 0; i < count; i++\<close> is \<open>insert_loop\<close>, with
  \<open>i\<close> counting up and the number of iterations left counting down. Every 1000th
  iteration begins a transaction with \<open>db.Begin()\<close>, but the insert is executed through
  the statement prepared on \<open>db\<close>, not on that transaction: each insert is committed on
  its own, and the deferred \<open>tx.Commit()\<close> calls at return commit empty transactions
  (\<open>txErr\<close> is \<open>nil\<close> in every deferred closure that exists). The three \<open>PRAGMA\<close>
  statements change no table.
\<close>

fun insert_loop :: "faults \<Rightarrow> clock \<Rightarrow> int \<Rightarrow> int \<Rightarrow> nat \<Rightarrow> nat \<Rightarrow> db \<Rightarrow> err option \<times> db" where
  "insert_loop flt clk startID startPosition i 0 d = (None, d)"
| "insert_loop flt clk startID startPosition i (Suc n) d =
     (let id = wrap64 (startID + int i);
          position = wrap64 (startPosition + int i);
          title = ''Task '' @ show_int id;
          description = ''Description for task '' @ show_int id;
          createdAt = clk 0;
          updatedAt = createdAt;
          batch = (i mod 1000 = 0)
      in if batch \<and> flt 0 then (Some DbError, d)
         else let f = (if batch then later 1 flt else flt)
              in if f 0 then (Some DbError, d)
                 else insert_loop (later 1 f) (later 1 clk) startID startPosition (Suc i) n
                        (snd (insert_row title description position createdAt updatedAt d)))"

definition GenerateDummyTasks :: "faults \<Rightarrow> clock \<Rightarrow> int \<Rightarrow> db \<Rightarrow> err option \<times> db" where
  "GenerateDummyTasks flt clk count d =
     (case GetLastTask flt d of
        Inl e \<Rightarrow> (Some e, d)
      | Inr lastTask \<Rightarrow>
          let startID = (case lastTask of None \<Rightarrow> 1 | Some t \<Rightarrow> wrap64 (ID t + 1));
              startPosition = (case lastTask of None \<Rightarrow> 1 | Some t \<Rightarrow> wrap64 (Position t + 1))
          in if flt 1 then (Some DbError, d)
             else if flt 2 then (Some DbError, d)
             else if flt 3 then (Some DbError, d)
             else if flt 4 then (Some DbError, d)
             else insert_loop (later 5 flt) clk startID startPosition 0 (nat count) d)"

section \<open>Request handlers\<close>

text \<open>A response is the status code and the JSON body handed to \<open>c.JSON\<close>.\<close>

datatype body =
    Err string
  | Msg string
  | OneTask task
  | Tasks "task list"
  | Listing int int int "task list"

type_synonym response = "nat \<times> body"

subsection \<open>GET /tasks\<close>

text \<open>
  \<open>page\<close> and \<open>limit\<close> are the results of \<open>strconv.Atoi\<close> on the query parameters after
  their defaults (\<open>None\<close> when \<open>Atoi\<close> fails).
\<close>

definition GET_tasks :: "faults \<Rightarrow> int option \<Rightarrow> int option \<Rightarrow> db \<Rightarrow> response" where
  "GET_tasks flt pageParam limitParam d =
     (case pageParam of
        None \<Rightarrow> (400, Err ''Invalid page value'')
      | Some page \<Rightarrow>
          if page \<le> 0 then (400, Err ''Invalid page value'')
          else (case limitParam of
            None \<Rightarrow> (400, Err ''Invalid limit value'')
          | Some limit \<Rightarrow>
              if limit \<le> 0 then (400, Err ''Invalid limit value'')
              else (case GetPaginatedTasks flt (wrap64 ((page - 1) * limit)) limit d of
                Inl e \<Rightarrow> (500, Err ''Failed to fetch tasks'')
              | Inr (tasks, totalCount) \<Rightarrow> (200, Listing totalCount page limit tasks))))"

subsection \<open>POST /tasks\<close>

text \<open>
  The handler decodes the body twice: as \<open>[]models.Task\<close> and as \<open>models.Task\<close>. Both
  results are arguments (\<open>None\<close>: \<open>json.Unmarshal\<close> returned an error). Of a decoded task
  only title, description and position are read.

  The array branch iterates twice: \<open>validate_all\<close> checks every item, in order, and
  writes nothing; only when it has accepted all of them does \<open>add_all\<close> insert them, in
  order, each with its own \<open>AddTask\<close> outside any transaction.
\<close>

fun validate_all :: "faults \<Rightarrow> task list \<Rightarrow> db \<Rightarrow> response option" where
  "validate_all flt [] d = None"
| "validate_all flt (t # ts) d =
     (if Title t = [] \<or> Position t \<le> 0
      then Some (400, Err ''Title and position are required for all tasks'')
      else case CheckPositionExists flt (Position t) d of
        Inl e \<Rightarrow> Some (500, Err ''Failed to check position existence'')
      | Inr exists \<Rightarrow>
          if exists
          then Some (400, Err (''Position '' @ show_int (Position t) @ '' already exists''))
          else validate_all (later 1 flt) ts d)"

fun add_all :: "faults \<Rightarrow> clock \<Rightarrow> task list \<Rightarrow> task list \<Rightarrow> db \<Rightarrow> response \<times> db" where
  "add_all flt clk [] createdTasks d = ((201, Tasks createdTasks), d)"
| "add_all flt clk (t # ts) createdTasks d =
     (case AddTask flt clk (Title t) (Description t) (Position t) d of
        (Inl e, d') \<Rightarrow> ((500, Err ''Failed to add tasks''), d')
      | (Inr newTask, d') \<Rightarrow>
          add_all (later 2 flt) (later 4 clk) ts (createdTasks @ [newTask]) d')"

definition post_array :: "faults \<Rightarrow> clock \<Rightarrow> task list \<Rightarrow> db \<Rightarrow> response \<times> db" where
  "post_array flt clk multipleTasks d =
     (case validate_all flt multipleTasks d of
        Some resp \<Rightarrow> (resp, d)
      | None \<Rightarrow> add_all (later (length multipleTasks) flt) clk multipleTasks [] d)"

definition post_single :: "faults \<Rightarrow> clock \<Rightarrow> task \<Rightarrow> db \<Rightarrow> response \<times> db" where
  "post_single flt clk singleTask d =
     (if Title singleTask = [] \<or> Position singleTask \<le> 0
      then ((400, Err ''Title and position are required''), d)
      else case CheckPositionExists flt (Position singleTask) d of
        Inl e \<Rightarrow> ((500, Err ''Failed to check position existence''), d)
      | Inr exists \<Rightarrow>
          if exists
          then ((400, Err (''Position '' @ show_int (Position singleTask) @ '' already exists'')), d)
          else (case AddTask (later 1 flt) clk (Title singleTask) (Description singleTask)
                      (Position singleTask) d of
            (Inl e, d') \<Rightarrow> ((500, Err ''Failed to add task''), d')
          | (Inr t, d') \<Rightarrow> ((201, OneTask t), d')))"

definition POST_tasks :: "faults \<Rightarrow> clock \<Rightarrow> task list option \<Rightarrow> task option \<Rightarrow> db \<Rightarrow> response \<times> db" where
  "POST_tasks flt clk asArray asSingle d =
     (case asArray of
        Some (t # ts) \<Rightarrow> post_array flt clk (t # ts) d
      | _ \<Rightarrow>
          (case asSingle of
             Some singleTask \<Rightarrow> post_single flt clk singleTask d
           | None \<Rightarrow> ((400, Err ''Invalid request body''), d)))"

subsection \<open>POST /tasks/generate\<close>

datatype count_param = Missing | NotANumber | Count int

definition POST_tasks_generate :: "faults \<Rightarrow> clock \<Rightarrow> count_param \<Rightarrow> db \<Rightarrow> response \<times> db" where
  "POST_tasks_generate flt clk countParam d =
     (case countParam of
        Missing \<Rightarrow> ((400, Err ''Count parameter is required''), d)
      | NotANumber \<Rightarrow> ((400, Err ''Invalid count value''), d)
      | Count count \<Rightarrow>
          if count \<le> 0 then ((400, Err ''Invalid count value''), d)
          else (case GenerateDummyTasks flt clk count d of
            (Some e, d') \<Rightarrow> ((500, Err ''Failed to generate dummy tasks''), d')
          | (None, d') \<Rightarrow>
              ((200, Msg (''Successfully generated '' @ show_int count @ '' dummy tasks'')), d')))"

subsection \<open>PUT /tasks/:id\<close>

text \<open>
  \<open>idParam\<close> is the result of \<open>strconv.Atoi\<close> on the path parameter. The body is bound
  with \<open>ShouldBindJSON\<close> to a struct of three fields without \<open>binding\<close> tags: a field the
  JSON object does not carry keeps Go's zero value. \<open>put_body\<close> is the JSON object
  (\<open>None\<close> for an absent field), \<open>bind_put\<close> the struct bound from it; a body that does
  not bind is \<open>None\<close>.
\<close>

record put_body =
  title_field :: "string option"
  description_field :: "string option"
  position_field :: "int option"

record put_input =
  inTitle :: string
  inDescription :: string
  inPosition :: int

definition bind_put :: "put_body \<Rightarrow> put_input" where
  "bind_put b =
     \<lparr>inTitle = (case title_field b of None \<Rightarrow> [] | Some s \<Rightarrow> s),
      inDescription = (case description_field b of None \<Rightarrow> [] | Some s \<Rightarrow> s),
      inPosition = (case position_field b of None \<Rightarrow> 0 | Some p \<Rightarrow> p)\<rparr>"

definition PUT_task :: "faults \<Rightarrow> clock \<Rightarrow> int option \<Rightarrow> put_body option \<Rightarrow> db \<Rightarrow> response \<times> db" where
  "PUT_task flt clk idParam jsonBody d =
     (case idParam of
        None \<Rightarrow> ((400, Err ''Invalid task ID''), d)
      | Some i \<Rightarrow>
          if i \<le> 0 then ((400, Err ''Invalid task ID''), d)
          else (case CheckTaskExists flt i d of
            Inl e \<Rightarrow> ((500, Err ''Failed to check task existence''), d)
          | Inr exists \<Rightarrow>
              if \<not> exists then ((404, Err ''Task not found''), d)
              else (case jsonBody of
                None \<Rightarrow> ((400, Err ''Invalid request body''), d)
              | Some b \<Rightarrow>
                  (let input = bind_put b
                   in (case UpdateTask (later 1 flt) clk i (inTitle input) (inDescription input)
                             (inPosition input) d of
                     (Some e, d') \<Rightarrow> ((500, Err ''Failed to update task''), d')
                   | (None, d') \<Rightarrow> ((200, Msg ''Task updated successfully''), d'))))))"

subsection \<open>DELETE /tasks/:id and DELETE /tasks\<close>

definition DELETE_task :: "faults \<Rightarrow> int option \<Rightarrow> db \<Rightarrow> response \<times> db" where
  "DELETE_task flt idParam d =
     (case idParam of
        None \<Rightarrow> ((400, Err ''Invalid task ID''), d)
      | Some i \<Rightarrow>
          if i \<le> 0 then ((400, Err ''Invalid task ID''), d)
          else (case CheckTaskExists flt i d of
            Inl e \<Rightarrow> ((500, Err ''Failed to check task existence''), d)
          | Inr exists \<Rightarrow>
              if \<not> exists then ((404, Err ''Task not found''), d)
              else (case DeleteTask (later 1 flt) i d of
                (Some e, d') \<Rightarrow> ((500, Err ''Failed to delete task''), d')
              | (None, d') \<Rightarrow> ((200, Msg ''Task deleted successfully''), d'))))"

definition DELETE_tasks :: "faults \<Rightarrow> db \<Rightarrow> response \<times> db" where
  "DELETE_tasks flt d =
     (case DeleteAllTasks flt d of
        (Some e, d') \<Rightarrow> ((500, Err ''Failed to delete all tasks''), d')
      | (None, d') \<Rightarrow> ((200, Msg ''All tasks deleted successfully''), d'))"

subsection \<open>PATCH /tasks/reorder\<close>

text \<open>
  The body binds to a slice of \<open>{ID, Position}\<close> structs (\<open>None\<close> when it does not bind;
  an absent field is 0). The handler first runs the checking loop \<open>reorder_check\<close> over
  the whole slice, then begins a transaction, runs one \<open>UPDATE\<close> per pair inside it
  (\<open>reorder_updates\<close>, working on the transaction's view of the table) and commits.
  \<open>defer tx.Rollback()\<close> discards the transaction's view on every return before the
  commit; a commit that fails installs nothing.
\<close>

record reorder_item =
  rID :: int
  rPosition :: int

fun reorder_check :: "faults \<Rightarrow> reorder_item list \<Rightarrow> db \<Rightarrow> response option" where
  "reorder_check flt [] d = None"
| "reorder_check flt (t # ts) d =
     (if rID t = 0 \<or> rPosition t \<le> 0
      then Some (400, Err ''ID and position are required for all tasks'')
      else case CheckTaskExists flt (rID t) d of
        Inl e \<Rightarrow> Some (500, Err ''Failed to check task existence'')
      | Inr exists \<Rightarrow>
          if \<not> exists
          then Some (404, Err (''Task with ID '' @ show_int (rID t) @ '' not found''))
          else reorder_check (later 1 flt) ts d)"

fun reorder_updates :: "faults \<Rightarrow> clock \<Rightarrow> reorder_item list \<Rightarrow> db \<Rightarrow> response + db" where
  "reorder_updates flt clk [] tx = Inr tx"
| "reorder_updates flt clk (t # ts) tx =
     (let updatedAt = clk 0
      in if flt 0
         then Inl (500, Err (''Failed to update task with ID '' @ show_int (rID t)))
         else reorder_updates (later 1 flt) (later 1 clk) ts
                (update_position (rID t) (rPosition t) updatedAt tx))"

definition PATCH_tasks_reorder :: "faults \<Rightarrow> clock \<Rightarrow> reorder_item list option \<Rightarrow> db \<Rightarrow> response \<times> db" where
  "PATCH_tasks_reorder flt clk jsonBody d =
     (case jsonBody of
        None \<Rightarrow> ((400, Err ''Invalid request body''), d)
      | Some updatedTasks \<Rightarrow>
          (case reorder_check flt updatedTasks d of
             Some resp \<Rightarrow> (resp, d)
           | None \<Rightarrow>
               (let n = length updatedTasks
                in if flt n then ((500, Err ''Failed to start transaction''), d)
                   else (case reorder_updates (later (n + 1) flt) clk updatedTasks d of
                     Inl resp \<Rightarrow> (resp, d)
                   | Inr tx \<Rightarrow>
                       if flt (2 * n + 1)
                       then ((500, Err ''Failed to commit transaction''), d)
                       else ((200, Msg ''Tasks reordered successfully''), tx)))))"

section \<open>Requests served one after another\<close>

datatype request =
    ReqList "int option" "int option"
  | ReqCreate "task list option" "task option"
  | ReqGenerate count_param
  | ReqUpdate "int option" "put_body option"
  | ReqDelete "int option"
  | ReqDeleteAll
  | ReqReorder "reorder_item list option"

fun serve :: "faults \<Rightarrow> clock \<Rightarrow> request \<Rightarrow> db \<Rightarrow> response \<times> db" where
  "serve flt clk (ReqList page limit) d = (GET_tasks flt page limit d, d)"
| "serve flt clk (ReqCreate asArray asSingle) d = POST_tasks flt clk asArray asSingle d"
| "serve flt clk (ReqGenerate c) d = POST_tasks_generate flt clk c d"
| "serve flt clk (ReqUpdate i b) d = PUT_task flt clk i b d"
| "serve flt clk (ReqDelete i) d = DELETE_task flt i d"
| "serve flt clk ReqDeleteAll d = DELETE_tasks flt d"
| "serve flt clk (ReqReorder b) d = PATCH_tasks_reorder flt clk b d"

text \<open>The committed state after a sequence of requests, each with its own environment.\<close>

fun serve_all :: "(faults \<times> clock \<times> request) list \<Rightarrow> db \<Rightarrow> db" where
  "serve_all [] d = d"
| "serve_all ((flt, clk, r) # rs) d = serve_all rs (snd (serve flt clk r d))"

section \<open>Properties of a state\<close>

text \<open>No two stored tasks share a position.\<close>

definition unique_positions :: "db \<Rightarrow> bool" where
  "unique_positions d = distinct (map Position (rows d))"

text \<open>
  What the table definition guarantees of every state the service can reach: the rows
  are in rowid order with pairwise different ids (\<open>PRIMARY KEY\<close>), and every id is
  positive and at most the \<open>sqlite_sequence\<close> entry (\<open>AUTOINCREMENT\<close>), which is never
  negative.
\<close>

definition wf_db :: "db \<Rightarrow> bool" where
  "wf_db d = (sorted_wrt (<) (map ID (rows d)) \<and> 0 \<le> autoinc d \<and>
              list_all (\<lambda>r. 0 < ID r \<and> ID r \<le> autoinc d) (rows d))"

text \<open>The position the generator continues from: that of the task with the largest id.\<close>

definition last_position :: "db \<Rightarrow> int" where
  "last_position d = (case select_last d of None \<Rightarrow> 0 | Some t \<Rightarrow> Position t)"

text \<open>The columns of a row that a create request supplies.\<close>

definition content :: "task \<Rightarrow> string \<times> string \<times> int" where
  "content t = (Title t, Description t, Position t)"

text \<open>Requests whose writes are all guarded by the position check.\<close>

fun position_checked :: "request \<Rightarrow> bool" where
  "position_checked (ReqList page limit) = True"
| "position_checked (ReqCreate asArray asSingle) =
     (case asArray of None \<Rightarrow> True | Some ts \<Rightarrow> distinct (map Position ts))"
| "position_checked (ReqDelete i) = True"
| "position_checked ReqDeleteAll = True"
| "position_checked (ReqGenerate c) = False"
| "position_checked (ReqUpdate i b) = False"
| "position_checked (ReqReorder b) = False"

section \<open>Example inputs\<close>

definition item :: "string \<Rightarrow> int \<Rightarrow> task" where
  "item title position =
     \<lparr>ID = 0, Title = title, Description = [], Position = position,
      CreatedAt = 0, UpdatedAt = 0\<rparr>"

definition row :: "int \<Rightarrow> string \<Rightarrow> int \<Rightarrow> task" where
  "row i title position =
     \<lparr>ID = i, Title = title, Description = [], Position = position,
      CreatedAt = 100, UpdatedAt = 100\<rparr>"

definition pair :: "int \<Rightarrow> int \<Rightarrow> reorder_item" where
  "pair i position = \<lparr>rID = i, rPosition = position\<rparr>"

definition create_one :: "string \<Rightarrow> int \<Rightarrow> faults \<times> clock \<times> request" where
  "create_one title position = (no_faults, ticks, ReqCreate None (Some (item title position)))"

definition put_position :: "int \<Rightarrow> int \<Rightarrow> faults \<times> clock \<times> request" where
  "put_position i position =
     (no_faults, ticks,
      ReqUpdate (Some i) (Some \<lparr>title_field = Some ''A'', description_field = None,
                                position_field = Some position\<rparr>))"

text \<open>Two tasks, created in this order at positions 5 and 3.\<close>

definition db_5_3 :: db where
  "db_5_3 = \<lparr>rows = [row 1 ''A'' 5, row 2 ''B'' 3], autoinc = 2\<rparr>"

text \<open>One task at position 2.\<close>

definition db_2 :: db where
  "db_2 = \<lparr>rows = [row 1 ''A'' 2], autoinc = 1\<rparr>"

text \<open>
  The state after creating ``A'' at position 1 and ``B'' at position 2 and then
  putting position 1 into task 2.
\<close>

definition db_tied :: db where
  "db_tied = serve_all [create_one ''A'' 1, create_one ''B'' 2, put_position 2 1] InitDB"

definition tied_page :: "task list" where
  "tied_page =
     [\<lparr>ID = 1, Title = ''A'', Description = [], Position = 1, CreatedAt = 100, UpdatedAt = 101\<rparr>,
      \<lparr>ID = 2, Title = ''A'', Description = [], Position = 1, CreatedAt = 100, UpdatedAt = 100\<rparr>]"

text \<open>
  The state after creating ``A'' at position 1 and ``B'' at position 2 and then
  deleting task 2: task 1 is left, and \<open>sqlite_sequence\<close> remembers 2.
\<close>

definition db_1_gap :: db where
  "db_1_gap = serve_all [create_one ''A'' 1, create_one ''B'' 2, (no_faults, ticks, ReqDelete (Some 2))] InitDB"

definition reorder_to :: "int \<Rightarrow> int \<Rightarrow> faults \<times> clock \<times> request" where
  "reorder_to i position = (no_faults, ticks, ReqReorder (Some [pair i position]))"

definition generate :: "int \<Rightarrow> faults \<times> clock \<times> request" where
  "generate n = (no_faults, ticks, ReqGenerate (Count n))"

definition create_many :: "task list \<Rightarrow> faults \<times> clock \<times> request" where
  "create_many ts = (no_faults, ticks, ReqCreate (Some ts) None)"

definition delete_one :: "int \<Rightarrow> faults \<times> clock \<times> request" where
  "delete_one i = (no_faults, ticks, ReqDelete (Some i))"

section \<open>Basic facts\<close>

text \<open>Reading a stream that was moved on, and additions that stay inside 64 bits.\<close>

lemma later_apply: "later n f k = f (n + k)"
  by (simp add: later_def)

lemma wrap64_inside: "- (2 ^ 63) \<le> x \<Longrightarrow> x < 2 ^ 63 \<Longrightarrow> wrap64 x = x"
  by (simp add: wrap64_def)

lemma count_id_pos: "(0 < count_id i d) = (\<exists>r \<in> set (rows d). ID r = i)"
  by (simp add: count_id_def filter_empty_conv)

lemma count_position_pos: "(0 < count_position p d) = (p \<in> set (map Position (rows d)))"
  by (auto simp: count_position_def filter_empty_conv)

lemma wf_db_ids_positive: "wf_db d \<Longrightarrow> r \<in> set (rows d) \<Longrightarrow> 0 < ID r"
  by (simp add: wf_db_def list_all_iff)

section \<open>Reorder\<close>

lemma reorder_updates_Inr:
  "reorder_updates flt clk ts tx = Inr tx' \<Longrightarrow> k < length ts \<Longrightarrow> \<not> flt k"
proof (induction ts arbitrary: flt clk tx k)
  case Nil
  then show ?case by simp
next
  case (Cons t ts)
  from Cons.prems(1) have f0: "\<not> flt 0"
    by (auto simp: Let_def split: if_splits)
  with Cons.prems(1) have rest:
    "reorder_updates (later 1 flt) (later 1 clk) ts
       (update_position (rID t) (rPosition t) (clk 0) tx) = Inr tx'"
    by (simp add: Let_def)
  show ?case
  proof (cases k)
    case 0
    with f0 show ?thesis by simp
  next
    case (Suc j)
    with Cons.prems(2) have "j < length ts" by simp
    from Cons.IH [OF rest this] Suc show ?thesis by (simp add: later_apply)
  qed
qed

lemma reorder_updates_Inl:
  "reorder_updates flt clk ts tx = Inl resp \<Longrightarrow> fst resp = 500"
  by (induction ts arbitrary: flt clk tx) (auto simp: Let_def split: if_splits)

lemma reorder_check_status:
  "reorder_check flt ts d = Some resp \<Longrightarrow> fst resp \<in> {400, 404, 500}"
  by (induction ts arbitrary: flt) (auto simp: CheckTaskExists_def split: if_splits)

lemma reorder_not_200_unchanged:
  "fst (fst (PATCH_tasks_reorder flt clk b d)) \<noteq> 200 \<Longrightarrow>
   snd (PATCH_tasks_reorder flt clk b d) = d"
  by (auto simp: PATCH_tasks_reorder_def Let_def split: option.splits sum.splits if_splits)

text \<open>
  C2. Reorder is atomic. The \<open>UPDATE\<close> of pair \<open>k\<close> is database call
  \<open>length updatedTasks + 1 + k\<close> of the request (after one existence query per pair and
  \<open>Begin\<close>). If it fails, the request does not answer 200 and the committed state is the
  state before the request: no position has changed.
\<close>

theorem reorder_atomic:
  assumes "k < length updatedTasks" and "flt (length updatedTasks + 1 + k)"
  shows "snd (PATCH_tasks_reorder flt clk (Some updatedTasks) d) = d \<and>
         fst (fst (PATCH_tasks_reorder flt clk (Some updatedTasks) d)) \<noteq> 200"
proof -
  have no_Inr:
    "reorder_updates (later (length updatedTasks + 1) flt) clk updatedTasks d \<noteq> Inr tx" for tx
  proof
    assume "reorder_updates (later (length updatedTasks + 1) flt) clk updatedTasks d = Inr tx"
    from reorder_updates_Inr [OF this assms(1)] assms(2) show False by (simp add: later_apply)
  qed
  have "fst (fst (PATCH_tasks_reorder flt clk (Some updatedTasks) d)) \<noteq> 200"
    using no_Inr reorder_check_status [of flt updatedTasks d]
      reorder_updates_Inl [of "later (length updatedTasks + 1) flt" clk updatedTasks d]
    by (auto simp: PATCH_tasks_reorder_def Let_def split: option.splits sum.splits if_splits)
  with reorder_not_200_unchanged [of flt clk "Some updatedTasks" d] show ?thesis by simp
qed

theorem reorder_atomic_witness:
  "(1::nat) < length [pair 1 7, pair 2 8] \<and>
   fail_at 4 (length [pair 1 7, pair 2 8] + 1 + 1) \<and>
   reorder_check (fail_at 4) [pair 1 7, pair 2 8] db_5_3 = None \<and>
   map Position (rows (update_position 1 7 (ticks 0) db_5_3)) = [7, 3] \<and>
   snd (PATCH_tasks_reorder (fail_at 4) ticks (Some [pair 1 7, pair 2 8]) db_5_3) = db_5_3 \<and>
   map Position (rows (snd (PATCH_tasks_reorder (fail_at 4) ticks
                              (Some [pair 1 7, pair 2 8]) db_5_3))) = [5, 3] \<and>
   fst (fst (PATCH_tasks_reorder (fail_at 4) ticks (Some [pair 1 7, pair 2 8]) db_5_3)) \<noteq> 200"
  using reorder_atomic [of 1 "[pair 1 7, pair 2 8]" "fail_at 4" ticks db_5_3]
  by (simp add: pair_def db_5_3_def row_def fail_at_def count_id_def CheckTaskExists_def
      later_apply update_position_def ticks_def)

text \<open>
  C10. A reorder request whose body is the empty array writes nothing, and when
  \<open>Begin\<close> and \<open>Commit\<close> (its only database calls) succeed it answers 200: the empty
  batch passes the checking loop.
\<close>

theorem reorder_empty_batch:
  "snd (PATCH_tasks_reorder flt clk (Some []) d) = d \<and>
   (\<not> flt 0 \<and> \<not> flt 1 \<longrightarrow>
      fst (PATCH_tasks_reorder flt clk (Some []) d) = (200, Msg ''Tasks reordered successfully''))"
  by (simp add: PATCH_tasks_reorder_def)

theorem reorder_empty_batch_witness:
  "snd (PATCH_tasks_reorder no_faults ticks (Some []) db_2) = db_2 \<and>
   \<not> no_faults 0 \<and> \<not> no_faults 1 \<and>
   fst (PATCH_tasks_reorder no_faults ticks (Some []) db_2) =
     (200, Msg ''Tasks reordered successfully'')"
  using reorder_empty_batch [of no_faults ticks db_2] by (simp add: no_faults_def)

section \<open>Update\<close>

lemma update_row_nth:
  "k < length (rows d) \<Longrightarrow>
   rows (update_row i title description position t d) ! k =
     (if ID (rows d ! k) = i
      then (rows d ! k)\<lparr>Title := title, Description := description, Position := position, UpdatedAt := t\<rparr>
      else rows d ! k)"
  by (simp add: update_row_def)

lemma distinct_ids_same_index:
  "distinct (map ID rs) \<Longrightarrow> j < length rs \<Longrightarrow> k < length rs \<Longrightarrow> ID (rs ! j) = ID (rs ! k) \<Longrightarrow> j = k"
  by (metis distinct_conv_nth length_map nth_map)

text \<open>
  C9. \<open>UpdateTask\<close> changes at most one row, the one whose id matches: the number of
  rows and the \<open>sqlite_sequence\<close> entry stay, every row keeps its id and its
  \<open>created_at\<close>, a row with another id is unchanged, and any two rows that changed are
  the same row (ids are a primary key).
\<close>

theorem UpdateTask_frame:
  assumes "distinct (map ID (rows d))"
  shows "length (rows (snd (UpdateTask flt clk i title description position d))) = length (rows d) \<and>
         autoinc (snd (UpdateTask flt clk i title description position d)) = autoinc d \<and>
         (\<forall>k < length (rows d).
            ID (rows (snd (UpdateTask flt clk i title description position d)) ! k) = ID (rows d ! k) \<and>
            CreatedAt (rows (snd (UpdateTask flt clk i title description position d)) ! k) = CreatedAt (rows d ! k) \<and>
            (ID (rows d ! k) \<noteq> i \<longrightarrow>
               rows (snd (UpdateTask flt clk i title description position d)) ! k = rows d ! k)) \<and>
         (\<forall>j < length (rows d). \<forall>k < length (rows d).
            rows (snd (UpdateTask flt clk i title description position d)) ! j \<noteq> rows d ! j \<and>
            rows (snd (UpdateTask flt clk i title description position d)) ! k \<noteq> rows d ! k \<longrightarrow> j = k)"
proof (cases "flt 0")
  case True
  then show ?thesis by (simp add: UpdateTask_def)
next
  case False
  then have eq: "snd (UpdateTask flt clk i title description position d) =
                 update_row i title description position (clk 0) d"
    by (simp add: UpdateTask_def)
  have len: "length (rows (update_row i title description position (clk 0) d)) = length (rows d)"
    by (simp add: update_row_def)
  have seq: "autoinc (update_row i title description position (clk 0) d) = autoinc d"
    by (simp add: update_row_def)
  have one: "j = k"
    if "j < length (rows d)" "k < length (rows d)"
       "rows (update_row i title description position (clk 0) d) ! j \<noteq> rows d ! j"
       "rows (update_row i title description position (clk 0) d) ! k \<noteq> rows d ! k" for j k
  proof -
    from that have "ID (rows d ! j) = i" "ID (rows d ! k) = i"
      by (auto simp: update_row_nth split: if_splits)
    with distinct_ids_same_index [OF assms that(1,2)] show ?thesis by simp
  qed
  show ?thesis
    unfolding eq using len seq one by (auto simp: update_row_nth)
qed

theorem UpdateTask_frame_witness:
  "distinct (map ID (rows db_5_3)) \<and>
   rows (snd (UpdateTask no_faults ticks 2 ''C'' ''D'' 9 db_5_3)) =
     [row 1 ''A'' 5,
      \<lparr>ID = 2, Title = ''C'', Description = ''D'', Position = 9, CreatedAt = 100, UpdatedAt = 100\<rparr>] \<and>
   rows (snd (UpdateTask no_faults ticks 2 ''C'' ''D'' 9 db_5_3)) ! 0 = rows db_5_3 ! 0"
  using UpdateTask_frame [of db_5_3 no_faults ticks 2 "''C''" "''D''" 9]
  by (simp add: db_5_3_def row_def UpdateTask_def no_faults_def update_row_def ticks_def)

text \<open>
  C6. A \<open>PUT\<close> whose id is that of a stored task \<open>r\<close>, with a body that binds and both
  database calls succeeding, answers 200 and overwrites title, description and position
  of that task with the bound struct: a field the body does not carry is written as the
  empty string or 0. Nothing of the old values is merged in.
\<close>

theorem PUT_task_replaces:
  assumes "wf_db d" and "r \<in> set (rows d)" and "\<not> flt 0" and "\<not> flt 1"
  shows "fst (PUT_task flt clk (Some (ID r)) (Some b) d) = (200, Msg ''Task updated successfully'') \<and>
         map ID (rows (snd (PUT_task flt clk (Some (ID r)) (Some b) d))) = map ID (rows d) \<and>
         (\<forall>r' \<in> set (rows (snd (PUT_task flt clk (Some (ID r)) (Some b) d))).
            ID r' = ID r \<longrightarrow>
              Title r' = (case title_field b of None \<Rightarrow> [] | Some s \<Rightarrow> s) \<and>
              Description r' = (case description_field b of None \<Rightarrow> [] | Some s \<Rightarrow> s) \<and>
              Position r' = (case position_field b of None \<Rightarrow> 0 | Some p \<Rightarrow> p) \<and>
              UpdatedAt r' = clk 0)"
proof -
  from assms(1,2) have pos: "0 < ID r" by (rule wf_db_ids_positive)
  from assms(2) have ex: "0 < count_id (ID r) d" by (auto simp: count_id_pos)
  have run: "PUT_task flt clk (Some (ID r)) (Some b) d =
        ((200, Msg ''Task updated successfully''),
         update_row (ID r) (inTitle (bind_put b)) (inDescription (bind_put b))
           (inPosition (bind_put b)) (clk 0) d)"
    using pos ex assms(3,4)
    by (simp add: PUT_task_def CheckTaskExists_def UpdateTask_def Let_def later_apply)
  show ?thesis
    unfolding run by (auto simp: update_row_def bind_put_def o_def)
qed

theorem PUT_task_replaces_witness:
  "wf_db db_5_3 \<and> row 2 ''B'' 3 \<in> set (rows db_5_3) \<and> \<not> no_faults 0 \<and> \<not> no_faults 1 \<and>
   rows (snd (PUT_task no_faults ticks (Some (ID (row 2 ''B'' 3)))
                (Some \<lparr>title_field = None, description_field = Some ''D'', position_field = None\<rparr>)
                db_5_3)) =
     [row 1 ''A'' 5,
      \<lparr>ID = 2, Title = [], Description = ''D'', Position = 0, CreatedAt = 100, UpdatedAt = 100\<rparr>]"
  using PUT_task_replaces [where d = db_5_3 and r = "row 2 ''B'' 3" and flt = no_faults and clk = ticks
      and b = "\<lparr>title_field = None, description_field = Some ''D'', position_field = None\<rparr>"]
  by (simp add: db_5_3_def row_def wf_db_def no_faults_def PUT_task_def CheckTaskExists_def
      count_id_def UpdateTask_def update_row_def bind_put_def ticks_def later_apply)

section \<open>List\<close>

lemma distinct_keys_insort:
  "distinct (map f (insort_key f x xs)) = (f x \<notin> f ` set xs \<and> distinct (map f xs))"
  by (induction xs) (auto simp: set_insort_key)

lemma distinct_keys_sort: "distinct (map f (sort_key f xs)) = distinct (map f xs)"
  by (induction xs) (auto simp: distinct_keys_insort)

lemma select_page_sorted: "sorted (map Position (select_page limit offset d))"
  by (simp add: select_page_def Let_def take_map [symmetric] drop_map [symmetric]
      sorted_wrt_take sorted_wrt_drop)

lemma select_page_distinct:
  "unique_positions d \<Longrightarrow> distinct (map Position (select_page limit offset d))"
  by (simp add: select_page_def Let_def unique_positions_def take_map [symmetric] drop_map [symmetric]
      distinct_take distinct_drop distinct_keys_sort)

lemma select_page_subset: "set (select_page limit offset d) \<subseteq> set (rows d)"
  by (auto simp: select_page_def Let_def dest!: in_set_takeD in_set_dropD)

text \<open>
  C5, as the code has it. When both queries succeed, \<open>GetPaginatedTasks\<close> returns, for
  every offset and limit, the number of stored rows as total count and a window of the
  stored rows in ascending order of position. The order is strict exactly as far as the
  stored positions differ: it is strictly ascending when they are pairwise distinct.
\<close>

theorem GetPaginatedTasks_ordered:
  assumes "\<not> flt 0" and "\<not> flt 1"
  shows "\<exists>tasks. GetPaginatedTasks flt offset limit d = Inr (tasks, int (length (rows d))) \<and>
           set tasks \<subseteq> set (rows d) \<and>
           sorted (map Position tasks) \<and>
           (unique_positions d \<longrightarrow> sorted_wrt (<) (map Position tasks))"
  using assms select_page_sorted [of limit offset d] select_page_distinct [of d limit offset]
    select_page_subset [of limit offset d]
  by (simp add: GetPaginatedTasks_def count_all_def strict_sorted_iff)

theorem GetPaginatedTasks_ordered_witness:
  "\<not> no_faults 0 \<and> \<not> no_faults 1 \<and> unique_positions db_5_3 \<and>
   GetPaginatedTasks no_faults 0 1 db_5_3 = Inr ([row 2 ''B'' 3], 2)"
  using GetPaginatedTasks_ordered [of no_faults 0 1 db_5_3]
  by (simp add: no_faults_def unique_positions_def db_5_3_def row_def GetPaginatedTasks_def
      select_page_def count_all_def)

text \<open>
  C5, as stated, fails: in the state \<open>db_tied\<close>, reached through the handlers from the
  empty table, two tasks hold position 1, and the first page lists both. The positions
  of the page are not strictly ascending.
\<close>

theorem list_not_strict_counterexample:
  "GetPaginatedTasks no_faults 0 10 db_tied = Inr (tied_page, 2) \<and>
   \<not> sorted_wrt (<) (map Position tied_page)"
  by (simp add: db_tied_def tied_page_def create_one_def put_position_def InitDB_def
      POST_tasks_def post_single_def item_def CheckPositionExists_def no_faults_def
      count_position_def AddTask_def insert_row_def next_rowid_def PUT_task_def
      CheckTaskExists_def count_id_def UpdateTask_def bind_put_def update_row_def
      GetPaginatedTasks_def select_page_def count_all_def ticks_def later_apply)

section \<open>Create\<close>

lemma rows_insert_row:
  "rows (snd (insert_row title description position c u d)) =
     rows d @ [\<lparr>ID = next_rowid d, Title = title, Description = description,
                Position = position, CreatedAt = c, UpdatedAt = u\<rparr>]"
  by (simp add: insert_row_def Let_def)

lemma content_insert_row:
  "map content (rows (snd (insert_row title description position c u d))) =
     map content (rows d) @ [(title, description, position)]"
  by (simp add: rows_insert_row content_def)

lemma AddTask_exec_fails: "flt 0 \<Longrightarrow> AddTask flt clk title description position d = (Inl DbError, d)"
  by (simp add: AddTask_def)

lemma AddTask_ok:
  assumes "\<not> flt 0" and "\<not> flt 1"
  shows "\<exists>t. AddTask flt clk title description position d =
               (Inr t, snd (insert_row title description position (clk 0) (clk 1) d)) \<and>
             content t = (title, description, position)"
  using assms by (auto simp: AddTask_def content_def split: prod.splits)

lemma validate_all_None:
  assumes "\<forall>t \<in> set ts. Title t \<noteq> [] \<and> 0 < Position t \<and> Position t \<notin> set (map Position (rows d))"
    and "\<forall>k < length ts. \<not> flt k"
  shows "validate_all flt ts d = None"
  using assms
proof (induction ts arbitrary: flt)
  case Nil
  then show ?case by simp
next
  case (Cons t ts)
  from Cons.prems(2) have f0: "\<not> flt 0" and rest: "\<forall>k < length ts. \<not> later 1 flt k"
    by (auto simp: later_apply)
  from Cons.prems(1) have ok: "Title t \<noteq> []" "0 < Position t" "\<not> 0 < count_position (Position t) d"
    by (auto simp: count_position_pos)
  from Cons.prems(1) have "\<forall>t \<in> set ts. Title t \<noteq> [] \<and> 0 < Position t \<and> Position t \<notin> set (map Position (rows d))"
    by simp
  from Cons.IH [OF this rest] f0 ok show ?case
    by (simp add: CheckPositionExists_def)
qed

lemma validate_all_prefix:
  assumes "\<forall>u \<in> set pre. Title u \<noteq> [] \<and> 0 < Position u \<and> Position u \<notin> set (map Position (rows d))"
    and "\<forall>j < length pre. \<not> flt j"
  shows "validate_all flt (pre @ rest) d = validate_all (later (length pre) flt) rest d"
  using assms
proof (induction pre arbitrary: flt)
  case Nil
  have "later 0 flt = flt" by (rule ext) (simp add: later_apply)
  then show ?case by simp
next
  case (Cons u pre)
  from Cons.prems(2) have f0: "\<not> flt 0" and rest: "\<forall>j < length pre. \<not> later 1 flt j"
    by (auto simp: later_apply)
  from Cons.prems(1) have ok: "Title u \<noteq> []" "0 < Position u" "\<not> 0 < count_position (Position u) d"
    and pre: "\<forall>u \<in> set pre. Title u \<noteq> [] \<and> 0 < Position u \<and> Position u \<notin> set (map Position (rows d))"
    by (auto simp: count_position_pos)
  have shift: "later (length pre) (later 1 flt) = later (length (u # pre)) flt"
    by (rule ext) (simp add: later_apply)
  from Cons.IH [OF pre rest] f0 ok show ?case
    by (simp add: CheckPositionExists_def shift [simplified])
qed

lemma add_all_ok:
  assumes "\<forall>k < 2 * length ts. \<not> flt k"
  shows "(\<exists>created. fst (add_all flt clk ts acc d) = (201, Tasks created) \<and>
           map content created = map content acc @ map content ts) \<and>
         map content (rows (snd (add_all flt clk ts acc d))) = map content (rows d) @ map content ts"
  using assms
proof (induction ts arbitrary: flt clk acc d)
  case Nil
  show ?case by simp
next
  case (Cons t ts)
  let ?d' = "snd (insert_row (Title t) (Description t) (Position t) (clk 0) (clk 1) d)"
  from Cons.prems have f: "\<not> flt 0" "\<not> flt 1" and rest: "\<forall>k < 2 * length ts. \<not> later 2 flt k"
    by (auto simp: later_apply)
  from AddTask_ok [OF f, of clk "Title t" "Description t" "Position t" d]
  obtain n where n: "AddTask flt clk (Title t) (Description t) (Position t) d = (Inr n, ?d')"
      "content n = content t"
    by (auto simp: content_def)
  have "map content (rows ?d') = map content (rows d) @ [content t]"
    by (simp add: content_insert_row) (simp add: content_def)
  with Cons.IH [OF rest, of "later 4 clk" "acc @ [n]" ?d'] n show ?case by simp
qed

lemma add_all_fails_at:
  assumes "k < length ts" and "\<forall>j < 2 * k. \<not> flt j" and "flt (2 * k)"
  shows "fst (add_all flt clk ts acc d) = (500, Err ''Failed to add tasks'') \<and>
         map content (rows (snd (add_all flt clk ts acc d))) =
           map content (rows d) @ map content (take k ts)"
  using assms
proof (induction ts arbitrary: flt clk acc d k)
  case Nil
  then show ?case by simp
next
  case (Cons t ts)
  let ?d' = "snd (insert_row (Title t) (Description t) (Position t) (clk 0) (clk 1) d)"
  show ?case
  proof (cases k)
    case 0
    with Cons.prems show ?thesis by (simp add: AddTask_exec_fails)
  next
    case (Suc m)
    with Cons.prems have f: "\<not> flt 0" "\<not> flt 1" and m: "m < length ts"
      and rest: "\<forall>j < 2 * m. \<not> later 2 flt j" and bad: "later 2 flt (2 * m)"
      by (auto simp: later_apply)
    from AddTask_ok [OF f, of clk "Title t" "Description t" "Position t" d]
    obtain n where n: "AddTask flt clk (Title t) (Description t) (Position t) d = (Inr n, ?d')"
      by auto
    have "map content (rows ?d') = map content (rows d) @ [content t]"
      by (simp add: content_insert_row) (simp add: content_def)
    with Cons.IH [OF m rest bad, of "later 4 clk" "acc @ [n]" ?d'] n Suc show ?thesis
      by simp
  qed
qed

lemma POST_tasks_array:
  "ts \<noteq> [] \<Longrightarrow> POST_tasks flt clk (Some ts) asSingle d = post_array flt clk ts d"
  by (cases ts) (simp_all add: POST_tasks_def)

lemma positions_of_content:
  "map content xs = map content ys @ map content zs \<Longrightarrow>
   map Position xs = map Position ys @ map Position zs"
proof -
  assume "map content xs = map content ys @ map content zs"
  then have "map (\<lambda>c. snd (snd c)) (map content xs) =
             map (\<lambda>c. snd (snd c)) (map content ys @ map content zs)"
    by simp
  then show ?thesis by (simp add: content_def o_def)
qed

text \<open>
  C8. An array create request whose items all carry a title and a positive position,
  none of them stored, but two of them equal, is answered 201 when no database call
  fails (one query and two calls of \<open>AddTask\<close> per item): every item is inserted, in
  order, and the state it leaves holds a position twice. The check of an item consults
  the stored rows only, and no item is stored before all are checked.
\<close>

theorem array_create_duplicates:
  assumes "ts \<noteq> []"
    and "\<forall>t \<in> set ts. Title t \<noteq> [] \<and> 0 < Position t"
    and "\<forall>t \<in> set ts. Position t \<notin> set (map Position (rows d))"
    and "\<not> distinct (map Position ts)"
    and "\<forall>k < 3 * length ts. \<not> flt k"
  shows "(\<exists>created. fst (POST_tasks flt clk (Some ts) asSingle d) = (201, Tasks created) \<and>
            map content created = map content ts) \<and>
         map content (rows (snd (POST_tasks flt clk (Some ts) asSingle d))) =
           map content (rows d) @ map content ts \<and>
         \<not> unique_positions (snd (POST_tasks flt clk (Some ts) asSingle d))"
proof -
  from assms(2,3,5) have "validate_all flt ts d = None"
    by (intro validate_all_None) auto
  with assms(1) have run:
    "POST_tasks flt clk (Some ts) asSingle d = add_all (later (length ts) flt) clk ts [] d"
    by (simp add: POST_tasks_array post_array_def)
  from assms(5) have nf: "\<forall>k < 2 * length ts. \<not> later (length ts) flt k"
    by (simp add: later_apply)
  note ok = add_all_ok [OF nf, of clk "[]" d]
  from ok have "map Position (rows (snd (add_all (later (length ts) flt) clk ts [] d))) =
             map Position (rows d) @ map Position ts"
    by (intro positions_of_content) simp
  with assms(4) have "\<not> unique_positions (snd (add_all (later (length ts) flt) clk ts [] d))"
    by (simp add: unique_positions_def)
  with ok show ?thesis
    unfolding run by simp
qed

theorem array_create_duplicates_witness:
  "[item ''A'' 7, item ''B'' 7] \<noteq> [] \<and>
   list_all (\<lambda>t. Title t \<noteq> [] \<and> 0 < Position t) [item ''A'' 7, item ''B'' 7] \<and>
   list_all (\<lambda>t. Position t \<notin> set (map Position (rows db_2))) [item ''A'' 7, item ''B'' 7] \<and>
   \<not> distinct (map Position [item ''A'' 7, item ''B'' 7]) \<and>
   (\<forall>k. \<not> no_faults k) \<and>
   map content (rows (snd (POST_tasks no_faults ticks (Some [item ''A'' 7, item ''B'' 7]) None db_2))) =
     [(''A'', [], 2), (''A'', [], 7), (''B'', [], 7)] \<and>
   \<not> unique_positions (snd (POST_tasks no_faults ticks (Some [item ''A'' 7, item ''B'' 7]) None db_2))"
  using array_create_duplicates [of "[item ''A'' 7, item ''B'' 7]" db_2 no_faults ticks None]
  by (simp add: item_def db_2_def row_def no_faults_def content_def)


lemma show_int_2: "show_int 2 = ''2''"
  by code_simp

text \<open>
  C4, as the code has it. All items are checked, in array order, before any insert.
  Whatever the checking loop answers is the answer of the request, and the state is
  unchanged. The first item that fails, after items that pass, decides the answer: 400
  when its title is empty or its position is not positive, 500 when its position query
  fails, 400 when its position is stored; in each case nothing is inserted. Only when
  every item has passed are the items inserted, in array order, each committed by its
  own \<open>INSERT\<close>: if the insert of item \<open>k\<close> fails (database call
  \<open>length ts + 2 * k\<close>), the answer is 500 and the items before \<open>k\<close> stay inserted;
  if no insert fails, the answer is 201 and all items are inserted.
\<close>

theorem array_create_checks_then_inserts:
  assumes "ts \<noteq> []"
  shows "(validate_all flt ts d = Some resp \<longrightarrow>
            POST_tasks flt clk (Some ts) asSingle d = (resp, d)) \<and>
         (ts = pre @ t # post \<and>
          (\<forall>u \<in> set pre. Title u \<noteq> [] \<and> 0 < Position u \<and>
                          Position u \<notin> set (map Position (rows d))) \<and>
          (\<forall>j < length pre. \<not> flt j) \<longrightarrow>
            (Title t = [] \<or> Position t \<le> 0 \<longrightarrow>
               POST_tasks flt clk (Some ts) asSingle d =
                 ((400, Err ''Title and position are required for all tasks''), d)) \<and>
            (Title t \<noteq> [] \<and> 0 < Position t \<and> flt (length pre) \<longrightarrow>
               POST_tasks flt clk (Some ts) asSingle d =
                 ((500, Err ''Failed to check position existence''), d)) \<and>
            (Title t \<noteq> [] \<and> 0 < Position t \<and> \<not> flt (length pre) \<and>
             Position t \<in> set (map Position (rows d)) \<longrightarrow>
               POST_tasks flt clk (Some ts) asSingle d =
                 ((400, Err (''Position '' @ show_int (Position t) @ '' already exists'')), d))) \<and>
         (validate_all flt ts d = None \<and> k < length ts \<and>
          (\<forall>j < 2 * k. \<not> flt (length ts + j)) \<and> flt (length ts + 2 * k) \<longrightarrow>
            fst (POST_tasks flt clk (Some ts) asSingle d) = (500, Err ''Failed to add tasks'') \<and>
            map content (rows (snd (POST_tasks flt clk (Some ts) asSingle d))) =
              map content (rows d) @ map content (take k ts)) \<and>
         (validate_all flt ts d = None \<and> (\<forall>j < 2 * length ts. \<not> flt (length ts + j)) \<longrightarrow>
            fst (fst (POST_tasks flt clk (Some ts) asSingle d)) = 201 \<and>
            map content (rows (snd (POST_tasks flt clk (Some ts) asSingle d))) =
              map content (rows d) @ map content ts)"
proof (intro conjI)
  show "validate_all flt ts d = Some resp \<longrightarrow> POST_tasks flt clk (Some ts) asSingle d = (resp, d)"
    using assms by (simp add: POST_tasks_array post_array_def)
next
  show "ts = pre @ t # post \<and>
          (\<forall>u \<in> set pre. Title u \<noteq> [] \<and> 0 < Position u \<and>
                          Position u \<notin> set (map Position (rows d))) \<and>
          (\<forall>j < length pre. \<not> flt j) \<longrightarrow>
            (Title t = [] \<or> Position t \<le> 0 \<longrightarrow>
               POST_tasks flt clk (Some ts) asSingle d =
                 ((400, Err ''Title and position are required for all tasks''), d)) \<and>
            (Title t \<noteq> [] \<and> 0 < Position t \<and> flt (length pre) \<longrightarrow>
               POST_tasks flt clk (Some ts) asSingle d =
                 ((500, Err ''Failed to check position existence''), d)) \<and>
            (Title t \<noteq> [] \<and> 0 < Position t \<and> \<not> flt (length pre) \<and>
             Position t \<in> set (map Position (rows d)) \<longrightarrow>
               POST_tasks flt clk (Some ts) asSingle d =
                 ((400, Err (''Position '' @ show_int (Position t) @ '' already exists'')), d))"
  proof
  assume a: "ts = pre @ t # post \<and>
          (\<forall>u \<in> set pre. Title u \<noteq> [] \<and> 0 < Position u \<and>
                          Position u \<notin> set (map Position (rows d))) \<and>
          (\<forall>j < length pre. \<not> flt j)"
  then have skip: "validate_all flt ts d = validate_all (later (length pre) flt) (t # post) d"
    by (simp add: validate_all_prefix)
  show "(Title t = [] \<or> Position t \<le> 0 \<longrightarrow>
               POST_tasks flt clk (Some ts) asSingle d =
                 ((400, Err ''Title and position are required for all tasks''), d)) \<and>
            (Title t \<noteq> [] \<and> 0 < Position t \<and> flt (length pre) \<longrightarrow>
               POST_tasks flt clk (Some ts) asSingle d =
                 ((500, Err ''Failed to check position existence''), d)) \<and>
            (Title t \<noteq> [] \<and> 0 < Position t \<and> \<not> flt (length pre) \<and>
             Position t \<in> set (map Position (rows d)) \<longrightarrow>
               POST_tasks flt clk (Some ts) asSingle d =
                 ((400, Err (''Position '' @ show_int (Position t) @ '' already exists'')), d))"
    unfolding POST_tasks_array [OF assms]
    by (auto simp: post_array_def skip CheckPositionExists_def later_apply count_position_pos)
  qed
next
  show "validate_all flt ts d = None \<and> k < length ts \<and>
          (\<forall>j < 2 * k. \<not> flt (length ts + j)) \<and> flt (length ts + 2 * k) \<longrightarrow>
            fst (POST_tasks flt clk (Some ts) asSingle d) = (500, Err ''Failed to add tasks'') \<and>
            map content (rows (snd (POST_tasks flt clk (Some ts) asSingle d))) =
              map content (rows d) @ map content (take k ts)"
  proof
    assume a: "validate_all flt ts d = None \<and> k < length ts \<and>
          (\<forall>j < 2 * k. \<not> flt (length ts + j)) \<and> flt (length ts + 2 * k)"
    with assms have run:
      "POST_tasks flt clk (Some ts) asSingle d = add_all (later (length ts) flt) clk ts [] d"
      by (simp add: POST_tasks_array post_array_def)
    from a have k: "k < length ts" and ok: "\<forall>j < 2 * k. \<not> later (length ts) flt j"
      and bad: "later (length ts) flt (2 * k)"
      by (simp_all add: later_apply)
    from add_all_fails_at [OF k ok bad, of clk "[]" d]
    show "fst (POST_tasks flt clk (Some ts) asSingle d) = (500, Err ''Failed to add tasks'') \<and>
          map content (rows (snd (POST_tasks flt clk (Some ts) asSingle d))) =
              map content (rows d) @ map content (take k ts)"
      unfolding run by simp
  qed
next
  show "validate_all flt ts d = None \<and> (\<forall>j < 2 * length ts. \<not> flt (length ts + j)) \<longrightarrow>
            fst (fst (POST_tasks flt clk (Some ts) asSingle d)) = 201 \<and>
            map content (rows (snd (POST_tasks flt clk (Some ts) asSingle d))) =
              map content (rows d) @ map content ts"
  proof
    assume a: "validate_all flt ts d = None \<and> (\<forall>j < 2 * length ts. \<not> flt (length ts + j))"
    with assms have run:
      "POST_tasks flt clk (Some ts) asSingle d = add_all (later (length ts) flt) clk ts [] d"
      by (simp add: POST_tasks_array post_array_def)
    from a have nf: "\<forall>j < 2 * length ts. \<not> later (length ts) flt j"
      by (simp add: later_apply)
    from add_all_ok [OF nf, of clk "[]" d]
    show "fst (fst (POST_tasks flt clk (Some ts) asSingle d)) = 201 \<and>
          map content (rows (snd (POST_tasks flt clk (Some ts) asSingle d))) =
              map content (rows d) @ map content ts"
      unfolding run by auto
  qed
qed

theorem array_create_checks_then_inserts_witness:
  "POST_tasks no_faults ticks (Some [item ''A'' 1, item [] 3]) None db_2 =
     ((400, Err ''Title and position are required for all tasks''), db_2) \<and>
   POST_tasks no_faults ticks (Some [item ''A'' 1, item ''B'' 0]) None db_2 =
     ((400, Err ''Title and position are required for all tasks''), db_2) \<and>
   POST_tasks (fail_at 1) ticks (Some [item ''A'' 1, item ''B'' 3]) None db_2 =
     ((500, Err ''Failed to check position existence''), db_2) \<and>
   POST_tasks no_faults ticks (Some [item ''A'' 1, item ''B'' 2]) None db_2 =
     ((400, Err ''Position 2 already exists''), db_2) \<and>
   validate_all (fail_at 4) [item ''A'' 1, item ''B'' 3] db_2 = None \<and>
   fst (POST_tasks (fail_at 4) ticks (Some [item ''A'' 1, item ''B'' 3]) None db_2) =
     (500, Err ''Failed to add tasks'') \<and>
   map content (rows (snd (POST_tasks (fail_at 4) ticks (Some [item ''A'' 1, item ''B'' 3]) None db_2))) =
     [(''A'', [], 2), (''A'', [], 1)] \<and>
   fst (fst (POST_tasks no_faults ticks (Some [item ''A'' 1, item ''B'' 3]) None db_2)) = 201 \<and>
   map content (rows (snd (POST_tasks no_faults ticks (Some [item ''A'' 1, item ''B'' 3]) None db_2))) =
     [(''A'', [], 2), (''A'', [], 1), (''B'', [], 3)]"
  using array_create_checks_then_inserts
          [where ts = "[item ''A'' 1, item [] 3]" and flt = no_faults and d = db_2 and clk = ticks
             and asSingle = None and pre = "[item ''A'' 1]" and t = "item [] 3" and post = "[]"
             and k = 0 and resp = "(400, Err [])"]
        array_create_checks_then_inserts
          [where ts = "[item ''A'' 1, item ''B'' 0]" and flt = no_faults and d = db_2 and clk = ticks
             and asSingle = None and pre = "[item ''A'' 1]" and t = "item ''B'' 0" and post = "[]"
             and k = 0 and resp = "(400, Err [])"]
        array_create_checks_then_inserts
          [where ts = "[item ''A'' 1, item ''B'' 3]" and flt = "fail_at 1" and d = db_2 and clk = ticks
             and asSingle = None and pre = "[item ''A'' 1]" and t = "item ''B'' 3" and post = "[]"
             and k = 0 and resp = "(400, Err [])"]
        array_create_checks_then_inserts
          [where ts = "[item ''A'' 1, item ''B'' 2]" and flt = no_faults and d = db_2 and clk = ticks
             and asSingle = None and pre = "[item ''A'' 1]" and t = "item ''B'' 2" and post = "[]"
             and k = 0 and resp = "(400, Err [])"]
        array_create_checks_then_inserts
          [where ts = "[item ''A'' 1, item ''B'' 3]" and flt = "fail_at 4" and d = db_2 and clk = ticks
             and asSingle = None and pre = "[]" and t = "item ''B'' 3" and post = "[]"
             and k = 1 and resp = "(400, Err [])"]
        array_create_checks_then_inserts
          [where ts = "[item ''A'' 1, item ''B'' 3]" and flt = no_faults and d = db_2 and clk = ticks
             and asSingle = None and pre = "[]" and t = "item ''B'' 3" and post = "[]"
             and k = 1 and resp = "(400, Err [])"]
  by (simp add: item_def db_2_def row_def no_faults_def fail_at_def content_def show_int_2
      CheckPositionExists_def count_position_def later_apply)

text \<open>
  C4, as stated, fails: an accepted item is not committed as soon as it is checked.
  With position 2 stored, the request \<open>[A at 1, B at 2]\<close> is refused at its second
  item; the first item passes its check, yet the state is unchanged and holds no task
  at position 1.
\<close>

theorem array_create_commits_nothing_counterexample:
  "validate_all no_faults [item ''A'' 1] db_2 = None \<and>
   fst (fst (POST_tasks no_faults ticks (Some [item ''A'' 1, item ''B'' 2]) None db_2)) = 400 \<and>
   snd (POST_tasks no_faults ticks (Some [item ''A'' 1, item ''B'' 2]) None db_2) = db_2 \<and>
   1 \<notin> set (map Position (rows (snd (POST_tasks no_faults ticks
                                       (Some [item ''A'' 1, item ''B'' 2]) None db_2))))"
  by (simp add: POST_tasks_def post_array_def item_def db_2_def row_def no_faults_def
      CheckPositionExists_def count_position_def later_apply)

section \<open>Reorder: the checking loop\<close>

lemma reorder_check_missing:
  "\<exists>t \<in> set ts. count_id (rID t) d = 0 \<Longrightarrow> reorder_check flt ts d \<noteq> None"
  by (induction ts arbitrary: flt) (auto simp: CheckTaskExists_def)

lemma reorder_check_prefix:
  assumes "\<forall>u \<in> set pre. rID u \<noteq> 0 \<and> 0 < rPosition u \<and> 0 < count_id (rID u) d"
    and "\<forall>j < length pre. \<not> flt j"
  shows "reorder_check flt (pre @ rest) d = reorder_check (later (length pre) flt) rest d"
  using assms
proof (induction pre arbitrary: flt)
  case Nil
  have "later 0 flt = flt" by (rule ext) (simp add: later_apply)
  then show ?case by simp
next
  case (Cons u pre)
  from Cons.prems(2) have f0: "\<not> flt 0" and rest: "\<forall>j < length pre. \<not> later 1 flt j"
    by (auto simp: later_apply)
  from Cons.prems(1) have ok: "rID u \<noteq> 0" "0 < rPosition u" "0 < count_id (rID u) d"
    and pre: "\<forall>u \<in> set pre. rID u \<noteq> 0 \<and> 0 < rPosition u \<and> 0 < count_id (rID u) d"
    by simp_all
  have shift: "later (length pre) (later 1 flt) = later (length (u # pre)) flt"
    by (rule ext) (simp add: later_apply)
  from Cons.IH [OF pre rest] f0 ok show ?case
    by (simp add: CheckTaskExists_def shift [simplified])
qed


text \<open>
  C7, as the code has it. If any pair of the batch names an id that is not stored, the
  checking loop refuses the request before \<open>Begin\<close>: nothing is written, and the
  answer is 400, 404 or 500. The first pair that fails, after pairs that pass (id other
  than 0, positive position, stored id, query succeeding), decides which: 400 when its
  id is 0 or its position is not positive, 500 when its existence query fails, 404 when
  its id is not stored. When the checking loop and \<open>Begin\<close> have passed and the
  \<open>UPDATE\<close> of some pair fails, the answer is 500 and the state is unchanged, also
  when earlier pairs of the batch had been updated inside the transaction.
\<close>

theorem reorder_missing_id:
  "((\<exists>t \<in> set ts. count_id (rID t) d = 0) \<longrightarrow>
      reorder_check flt ts d \<noteq> None \<and>
      snd (PATCH_tasks_reorder flt clk (Some ts) d) = d \<and>
      fst (fst (PATCH_tasks_reorder flt clk (Some ts) d)) \<in> {400, 404, 500}) \<and>
   (ts = pre @ t # post \<and>
    (\<forall>u \<in> set pre. rID u \<noteq> 0 \<and> 0 < rPosition u \<and> 0 < count_id (rID u) d) \<and>
    (\<forall>j < length pre. \<not> flt j) \<longrightarrow>
      (rID t = 0 \<or> rPosition t \<le> 0 \<longrightarrow>
         PATCH_tasks_reorder flt clk (Some ts) d =
           ((400, Err ''ID and position are required for all tasks''), d)) \<and>
      (rID t \<noteq> 0 \<and> 0 < rPosition t \<and> flt (length pre) \<longrightarrow>
         PATCH_tasks_reorder flt clk (Some ts) d =
           ((500, Err ''Failed to check task existence''), d)) \<and>
      (rID t \<noteq> 0 \<and> 0 < rPosition t \<and> \<not> flt (length pre) \<and> count_id (rID t) d = 0 \<longrightarrow>
         PATCH_tasks_reorder flt clk (Some ts) d =
           ((404, Err (''Task with ID '' @ show_int (rID t) @ '' not found'')), d))) \<and>
   (reorder_check flt ts d = None \<and> \<not> flt (length ts) \<and>
    k < length ts \<and> flt (length ts + 1 + k) \<longrightarrow>
      fst (fst (PATCH_tasks_reorder flt clk (Some ts) d)) = 500 \<and>
      snd (PATCH_tasks_reorder flt clk (Some ts) d) = d)"
proof (intro conjI)
  show "(\<exists>t \<in> set ts. count_id (rID t) d = 0) \<longrightarrow>
      reorder_check flt ts d \<noteq> None \<and>
      snd (PATCH_tasks_reorder flt clk (Some ts) d) = d \<and>
      fst (fst (PATCH_tasks_reorder flt clk (Some ts) d)) \<in> {400, 404, 500}"
  proof
    assume "\<exists>t \<in> set ts. count_id (rID t) d = 0"
    then have "reorder_check flt ts d \<noteq> None"
      by (rule reorder_check_missing)
    then obtain resp where resp: "reorder_check flt ts d = Some resp"
      by auto
    with reorder_check_status [OF resp]
    show "reorder_check flt ts d \<noteq> None \<and>
      snd (PATCH_tasks_reorder flt clk (Some ts) d) = d \<and>
      fst (fst (PATCH_tasks_reorder flt clk (Some ts) d)) \<in> {400, 404, 500}"
      by (simp add: PATCH_tasks_reorder_def)
  qed
next
  show "ts = pre @ t # post \<and>
    (\<forall>u \<in> set pre. rID u \<noteq> 0 \<and> 0 < rPosition u \<and> 0 < count_id (rID u) d) \<and>
    (\<forall>j < length pre. \<not> flt j) \<longrightarrow>
      (rID t = 0 \<or> rPosition t \<le> 0 \<longrightarrow>
         PATCH_tasks_reorder flt clk (Some ts) d =
           ((400, Err ''ID and position are required for all tasks''), d)) \<and>
      (rID t \<noteq> 0 \<and> 0 < rPosition t \<and> flt (length pre) \<longrightarrow>
         PATCH_tasks_reorder flt clk (Some ts) d =
           ((500, Err ''Failed to check task existence''), d)) \<and>
      (rID t \<noteq> 0 \<and> 0 < rPosition t \<and> \<not> flt (length pre) \<and> count_id (rID t) d = 0 \<longrightarrow>
         PATCH_tasks_reorder flt clk (Some ts) d =
           ((404, Err (''Task with ID '' @ show_int (rID t) @ '' not found'')), d))"
  proof
    assume a: "ts = pre @ t # post \<and>
      (\<forall>u \<in> set pre. rID u \<noteq> 0 \<and> 0 < rPosition u \<and> 0 < count_id (rID u) d) \<and>
      (\<forall>j < length pre. \<not> flt j)"
    then have skip: "reorder_check flt ts d = reorder_check (later (length pre) flt) (t # post) d"
      by (simp add: reorder_check_prefix)
    show "(rID t = 0 \<or> rPosition t \<le> 0 \<longrightarrow>
         PATCH_tasks_reorder flt clk (Some ts) d =
           ((400, Err ''ID and position are required for all tasks''), d)) \<and>
      (rID t \<noteq> 0 \<and> 0 < rPosition t \<and> flt (length pre) \<longrightarrow>
         PATCH_tasks_reorder flt clk (Some ts) d =
           ((500, Err ''Failed to check task existence''), d)) \<and>
      (rID t \<noteq> 0 \<and> 0 < rPosition t \<and> \<not> flt (length pre) \<and> count_id (rID t) d = 0 \<longrightarrow>
         PATCH_tasks_reorder flt clk (Some ts) d =
           ((404, Err (''Task with ID '' @ show_int (rID t) @ '' not found'')), d))"
      by (auto simp: PATCH_tasks_reorder_def skip CheckTaskExists_def later_apply)
  qed
next
  show "reorder_check flt ts d = None \<and> \<not> flt (length ts) \<and>
    k < length ts \<and> flt (length ts + 1 + k) \<longrightarrow>
      fst (fst (PATCH_tasks_reorder flt clk (Some ts) d)) = 500 \<and>
      snd (PATCH_tasks_reorder flt clk (Some ts) d) = d"
  proof
    assume a: "reorder_check flt ts d = None \<and> \<not> flt (length ts) \<and>
      k < length ts \<and> flt (length ts + 1 + k)"
    then have k: "k < length ts" and bad: "flt (length ts + 1 + k)"
      by simp_all
    have "reorder_updates (later (length ts + 1) flt) clk ts d \<noteq> Inr tx" for tx
    proof
      assume "reorder_updates (later (length ts + 1) flt) clk ts d = Inr tx"
      from reorder_updates_Inr [OF this k] bad show False by (simp add: later_apply)
    qed
    then obtain resp where resp: "reorder_updates (later (length ts + 1) flt) clk ts d = Inl resp"
      by (cases "reorder_updates (later (length ts + 1) flt) clk ts d") auto
    from a resp reorder_updates_Inl [OF resp]
    show "fst (fst (PATCH_tasks_reorder flt clk (Some ts) d)) = 500 \<and>
      snd (PATCH_tasks_reorder flt clk (Some ts) d) = d"
      by (simp add: PATCH_tasks_reorder_def Let_def)
  qed
qed

lemma show_int_99: "show_int 99 = ''99''"
  by code_simp

theorem reorder_missing_id_witness:
  "PATCH_tasks_reorder no_faults ticks (Some [pair 2 4, pair 1 0]) db_5_3 =
     ((400, Err ''ID and position are required for all tasks''), db_5_3) \<and>
   PATCH_tasks_reorder no_faults ticks (Some [pair 2 4, pair 0 6]) db_5_3 =
     ((400, Err ''ID and position are required for all tasks''), db_5_3) \<and>
   PATCH_tasks_reorder (fail_at 1) ticks (Some [pair 1 7, pair 2 8]) db_5_3 =
     ((500, Err ''Failed to check task existence''), db_5_3) \<and>
   count_id (rID (pair 99 2)) db_2 = 0 \<and>
   PATCH_tasks_reorder no_faults ticks (Some [pair 1 1, pair 99 2]) db_2 =
     ((404, Err ''Task with ID 99 not found''), db_2) \<and>
   reorder_check (fail_at 4) [pair 1 7, pair 2 8] db_5_3 = None \<and>
   map Position (rows (update_position 1 7 (ticks 0) db_5_3)) = [7, 3] \<and>
   fst (fst (PATCH_tasks_reorder (fail_at 4) ticks (Some [pair 1 7, pair 2 8]) db_5_3)) = 500 \<and>
   snd (PATCH_tasks_reorder (fail_at 4) ticks (Some [pair 1 7, pair 2 8]) db_5_3) = db_5_3 \<and>
   map Position (rows (snd (PATCH_tasks_reorder (fail_at 4) ticks
                              (Some [pair 1 7, pair 2 8]) db_5_3))) = [5, 3]"
  using reorder_missing_id
          [where ts = "[pair 2 4, pair 1 0]" and d = db_5_3 and flt = no_faults and clk = ticks
             and pre = "[pair 2 4]" and t = "pair 1 0" and post = "[]" and k = 0]
        reorder_missing_id
          [where ts = "[pair 2 4, pair 0 6]" and d = db_5_3 and flt = no_faults and clk = ticks
             and pre = "[pair 2 4]" and t = "pair 0 6" and post = "[]" and k = 0]
        reorder_missing_id
          [where ts = "[pair 1 7, pair 2 8]" and d = db_5_3 and flt = "fail_at 1" and clk = ticks
             and pre = "[pair 1 7]" and t = "pair 2 8" and post = "[]" and k = 0]
        reorder_missing_id
          [where ts = "[pair 1 1, pair 99 2]" and d = db_2 and flt = no_faults and clk = ticks
             and pre = "[pair 1 1]" and t = "pair 99 2" and post = "[]" and k = 0]
        reorder_missing_id
          [where ts = "[pair 1 7, pair 2 8]" and d = db_5_3 and flt = "fail_at 4" and clk = ticks
             and pre = "[]" and t = "pair 2 8" and post = "[]" and k = 1]
  by (simp add: pair_def db_5_3_def db_2_def row_def no_faults_def fail_at_def count_id_def
      show_int_99 CheckTaskExists_def later_apply update_position_def ticks_def)

text \<open>
  C7, as stated, fails: a batch with a missing id is not always answered 404. The
  checks run pair by pair, and a pair without a positive position earlier in the batch
  is answered 400 although id 99 is not stored.
\<close>

theorem reorder_missing_id_counterexample:
  "count_id 99 db_2 = 0 \<and>
   PATCH_tasks_reorder no_faults ticks (Some [pair 1 0, pair 99 1]) db_2 =
     ((400, Err ''ID and position are required for all tasks''), db_2)"
  by (simp add: PATCH_tasks_reorder_def pair_def db_2_def row_def count_id_def)

section \<open>Generate\<close>

lemma fold_max_le: "\<forall>x \<in> set xs. x \<le> b \<Longrightarrow> a \<le> b \<Longrightarrow> fold max xs a \<le> (b::int)"
  by (induction xs arbitrary: a) auto

lemma wf_db_next_rowid: "wf_db d \<Longrightarrow> next_rowid d = autoinc d + 1"
proof -
  assume "wf_db d"
  then have "\<forall>x \<in> set (map ID (rows d)). x \<le> autoinc d" and "0 \<le> autoinc d"
    by (auto simp: wf_db_def list_all_iff)
  then have "fold max (map ID (rows d)) 0 \<le> autoinc d"
    by (rule fold_max_le)
  then show ?thesis by (simp add: next_rowid_def)
qed

lemma wf_db_insert_row:
  assumes "wf_db d"
  shows "wf_db (snd (insert_row title description position c u d))"
    and "autoinc (snd (insert_row title description position c u d)) = autoinc d + 1"
    and "rows (snd (insert_row title description position c u d)) =
           rows d @ [\<lparr>ID = autoinc d + 1, Title = title, Description = description,
                      Position = position, CreatedAt = c, UpdatedAt = u\<rparr>]"
  using assms wf_db_next_rowid [OF assms]
  by (auto simp: insert_row_def Let_def wf_db_def sorted_wrt_append list_all_iff)

lemma wf_db_select_last:
  assumes "wf_db d"
  shows "select_last d = (if rows d = [] then None else Some (last (rows d)))"
proof -
  from assms have "sorted (map ID (rows d))"
    by (simp add: wf_db_def strict_sorted_imp_sorted)
  then have "sort_key ID (rows d) = rows d"
    by (rule sort_key_id_if_sorted)
  then show ?thesis
    by (cases "rows d" rule: rev_cases) (simp_all add: select_last_def)
qed

lemma insert_loop_ok:
  assumes "wf_db d" and "\<forall>k. \<not> flt k"
  shows "fst (insert_loop flt clk startID startPosition i n d) = None \<and>
         (\<exists>new. rows (snd (insert_loop flt clk startID startPosition i n d)) = rows d @ new \<and>
            map ID new = map (\<lambda>j. autoinc d + 1 + int j) [0..<n] \<and>
            map Position new = map (\<lambda>j. wrap64 (startPosition + int (i + j))) [0..<n])"
  using assms
proof (induction n arbitrary: flt clk i d)
  case 0
  then show ?case by simp
next
  case (Suc n)
  let ?id = "wrap64 (startID + int i)"
  let ?d' = "snd (insert_row (''Task '' @ show_int ?id) (''Description for task '' @ show_int ?id)
                    (wrap64 (startPosition + int i)) (clk 0) (clk 0) d)"
  let ?f = "if i mod 1000 = 0 then later 1 flt else flt"
  from Suc.prems(2) have nf: "\<forall>k. \<not> later 1 ?f k"
    by (simp add: later_apply)
  from Suc.prems(2) have step:
    "insert_loop flt clk startID startPosition i (Suc n) d =
       insert_loop (later 1 ?f) (later 1 clk) startID startPosition (Suc i) n ?d'"
    by (simp add: Let_def later_apply)
  note ins = wf_db_insert_row [OF Suc.prems(1), of "''Task '' @ show_int ?id"
      "''Description for task '' @ show_int ?id" "wrap64 (startPosition + int i)" "clk 0" "clk 0"]
  from Suc.IH [OF ins(1) nf, of "later 1 clk" "Suc i"]
  obtain new where none: "fst (insert_loop (later 1 ?f) (later 1 clk) startID startPosition (Suc i) n ?d') = None"
    and new: "rows (snd (insert_loop (later 1 ?f) (later 1 clk) startID startPosition (Suc i) n ?d')) =
                rows ?d' @ new"
      "map ID new = map (\<lambda>j. autoinc ?d' + 1 + int j) [0..<n]"
      "map Position new = map (\<lambda>j. wrap64 (startPosition + int (Suc i + j))) [0..<n]"
    by blast
  let ?r = "\<lparr>ID = autoinc d + 1, Title = ''Task '' @ show_int ?id,
             Description = ''Description for task '' @ show_int ?id,
             Position = wrap64 (startPosition + int i), CreatedAt = clk 0, UpdatedAt = clk 0\<rparr>"
  have "rows (snd (insert_loop flt clk startID startPosition i (Suc n) d)) = rows d @ (?r # new)"
    unfolding step new(1) ins(3) by simp
  moreover have "map ID (?r # new) = map (\<lambda>j. autoinc d + 1 + int j) [0..<Suc n]"
    using new(2) ins(2) by (simp add: map_upt_Suc del: upt_Suc)
  moreover have "map Position (?r # new) =
                 map (\<lambda>j. wrap64 (startPosition + int (i + j))) [0..<Suc n]"
    using new(3) by (simp add: map_upt_Suc add.left_commute del: upt_Suc)
  moreover have "fst (insert_loop flt clk startID startPosition i (Suc n) d) = None"
    unfolding step by (rule none)
  ultimately show ?case by blast
qed

lemma strictly_ascending_from:
  "sorted_wrt (<) (map (\<lambda>j. a + int j) [0..<n])"
  by (simp add: sorted_wrt_iff_nth_less)


text \<open>
  C3, as the code has it. On a well-formed table, for every count \<open>N > 0\<close>, when no
  database call fails and the position counter stays inside Go's \<open>int\<close>,
  \<open>GenerateDummyTasks\<close> appends exactly \<open>N\<close> tasks. Their ids are consecutive and
  strictly increasing, starting one above the \<open>sqlite_sequence\<close> entry and so above
  every stored id. Their positions are consecutive and strictly increasing, starting one
  above the position of the task with the largest id (at 1 on an empty table).
\<close>

theorem GenerateDummyTasks_appends:
  assumes "wf_db d" and "0 < N" and "\<forall>k. \<not> flt k"
    and "- (2 ^ 63) \<le> last_position d" and "last_position d + N < 2 ^ 63"
  shows "fst (GenerateDummyTasks flt clk N d) = None \<and>
         (\<exists>new. rows (snd (GenerateDummyTasks flt clk N d)) = rows d @ new \<and>
            int (length new) = N \<and>
            map ID new = map (\<lambda>j. autoinc d + 1 + int j) [0..<nat N] \<and>
            map Position new = map (\<lambda>j. last_position d + 1 + int j) [0..<nat N] \<and>
            sorted_wrt (<) (map ID new) \<and>
            sorted_wrt (<) (map Position new) \<and>
            (\<forall>r \<in> set (rows d). ID r < autoinc d + 1))"
proof -
  let ?sid = "case select_last d of None \<Rightarrow> 1 | Some t \<Rightarrow> wrap64 (ID t + 1)"
  let ?sp = "case select_last d of None \<Rightarrow> 1 | Some t \<Rightarrow> wrap64 (Position t + 1)"
  from assms(4,5,2) have "wrap64 (last_position d + 1) = last_position d + 1"
    by (intro wrap64_inside) auto
  then have sp: "?sp = last_position d + 1"
    by (simp add: last_position_def split: option.splits)
  from assms(3) have run:
    "GenerateDummyTasks flt clk N d = insert_loop (later 5 flt) clk ?sid ?sp 0 (nat N) d"
    by (simp add: GenerateDummyTasks_def GetLastTask_def Let_def)
  from assms(3) have nf: "\<forall>k. \<not> later 5 flt k"
    by (simp add: later_apply)
  from insert_loop_ok [OF assms(1) nf, of clk ?sid ?sp 0 "nat N"]
  obtain new where none: "fst (insert_loop (later 5 flt) clk ?sid ?sp 0 (nat N) d) = None"
    and new: "rows (snd (insert_loop (later 5 flt) clk ?sid ?sp 0 (nat N) d)) = rows d @ new"
      "map ID new = map (\<lambda>j. autoinc d + 1 + int j) [0..<nat N]"
      "map Position new = map (\<lambda>j. wrap64 (?sp + int (0 + j))) [0..<nat N]"
    by blast
  have inside: "wrap64 (?sp + int (0 + j)) = last_position d + 1 + int j" if "j < nat N" for j
    unfolding sp using that assms(4,5) by (intro trans [OF wrap64_inside]) auto
  have pos: "map Position new = map (\<lambda>j. last_position d + 1 + int j) [0..<nat N]"
    unfolding new(3) using inside by simp
  from arg_cong [OF new(2), of length] assms(2) have len: "int (length new) = N"
    by simp
  have "\<forall>r \<in> set (rows d). ID r < autoinc d + 1"
    using assms(1) by (auto simp: wf_db_def list_all_iff)
  moreover have "sorted_wrt (<) (map ID new)"
    unfolding new(2) by (rule strictly_ascending_from)
  moreover have "sorted_wrt (<) (map Position new)"
    unfolding pos by (rule strictly_ascending_from)
  ultimately show ?thesis
    unfolding run using none new(1,2) pos len by blast
qed


theorem GenerateDummyTasks_appends_witness:
  "wf_db db_5_3 \<and> (0::int) < 2 \<and> (\<forall>k. \<not> no_faults k) \<and>
   - (2 ^ 63) \<le> last_position db_5_3 \<and> last_position db_5_3 + 2 < 2 ^ 63 \<and>
   fst (GenerateDummyTasks no_faults ticks 2 db_5_3) = None \<and>
   map ID (rows (snd (GenerateDummyTasks no_faults ticks 2 db_5_3))) = [1, 2, 3, 4] \<and>
   map Position (rows (snd (GenerateDummyTasks no_faults ticks 2 db_5_3))) = [5, 3, 4, 5]"
  using GenerateDummyTasks_appends [of db_5_3 2 no_faults ticks]
  by (simp add: wf_db_def db_5_3_def row_def no_faults_def last_position_def select_last_def
      GenerateDummyTasks_def GetLastTask_def later_apply insert_row_def next_rowid_def
      wrap64_def numeral_2_eq_2 Let_def)

text \<open>
  C3, as stated, fails in both continuations. With tasks at positions 5 and 3 (created
  in this order) the generated task is at position 4, not above the maximum position 5.
  With task 2 deleted, the generated task has id 3, not the id after the maximum id 1.
\<close>

theorem generate_not_from_max_counterexample:
  "map Position (rows db_5_3) = [5, 3] \<and>
   map Position (rows (snd (GenerateDummyTasks no_faults ticks 1 db_5_3))) = [5, 3, 4] \<and>
   map ID (rows db_1_gap) = [1] \<and>
   map ID (rows (snd (GenerateDummyTasks no_faults ticks 1 db_1_gap))) = [1, 3]"
  by (simp add: db_5_3_def db_1_gap_def row_def no_faults_def select_last_def
      GenerateDummyTasks_def GetLastTask_def later_apply insert_row_def next_rowid_def
      wrap64_def Let_def create_one_def InitDB_def POST_tasks_def post_single_def item_def
      CheckPositionExists_def count_position_def AddTask_def DELETE_task_def CheckTaskExists_def
      count_id_def DeleteTask_def delete_row_def)

section \<open>Reachable states are well-formed\<close>

text \<open>
  The freshly created table is well-formed, and every request, whatever fails on its
  way, leaves a well-formed table: \<open>wf_db\<close> holds of every state the service commits.
\<close>

lemma wf_db_InitDB: "wf_db InitDB"
  by (simp add: wf_db_def InitDB_def)

lemma wf_db_AddTask: "wf_db d \<Longrightarrow> wf_db (snd (AddTask flt clk title description position d))"
  using wf_db_insert_row(1) [of d title description position "clk 0" "clk 1"]
  by (auto simp: AddTask_def split: prod.splits)

lemma wf_db_add_all: "wf_db d \<Longrightarrow> wf_db (snd (add_all flt clk ts acc d))"
proof (induction ts arbitrary: flt clk acc d)
  case Nil
  then show ?case by simp
next
  case (Cons t ts)
  from wf_db_AddTask [OF Cons.prems, of flt clk "Title t" "Description t" "Position t"]
  show ?case
    by (auto split: prod.splits sum.splits intro: Cons.IH)
qed

lemma wf_db_ids:
  "wf_db d = (sorted_wrt (<) (map ID (rows d)) \<and> 0 \<le> autoinc d \<and>
              (\<forall>x \<in> set (map ID (rows d)). 0 < x \<and> x \<le> autoinc d))"
  by (simp add: wf_db_def list_all_iff)

lemma ids_update_row:
  "map ID (rows (update_row i title description position u d)) = map ID (rows d)"
  by (simp add: update_row_def o_def if_distrib cong: if_cong)

lemma ids_update_position:
  "map ID (rows (update_position i position u d)) = map ID (rows d)"
  by (simp add: update_position_def o_def if_distrib cong: if_cong)

lemma wf_db_update_row: "wf_db d \<Longrightarrow> wf_db (update_row i title description position u d)"
  unfolding wf_db_ids ids_update_row by (simp add: update_row_def)

lemma wf_db_update_position: "wf_db d \<Longrightarrow> wf_db (update_position i position u d)"
  unfolding wf_db_ids ids_update_position by (simp add: update_position_def)

lemma wf_db_reorder_updates:
  "wf_db tx \<Longrightarrow> reorder_updates flt clk ts tx = Inr tx' \<Longrightarrow> wf_db tx'"
proof (induction ts arbitrary: flt clk tx)
  case Nil
  then show ?case by simp
next
  case (Cons t ts)
  from Cons.prems(2) have
    "reorder_updates (later 1 flt) (later 1 clk) ts
       (update_position (rID t) (rPosition t) (clk 0) tx) = Inr tx'"
    by (simp add: Let_def split: if_splits)
  from Cons.IH [OF wf_db_update_position [OF Cons.prems(1)] this] show ?case .
qed

lemma wf_db_delete_row: "wf_db d \<Longrightarrow> wf_db (delete_row i d)"
  by (simp add: wf_db_def delete_row_def list_all_iff sorted_wrt_map sorted_wrt_filter)

lemma wf_db_insert_loop:
  "wf_db d \<Longrightarrow> wf_db (snd (insert_loop flt clk startID startPosition i n d))"
proof (induction n arbitrary: flt clk i d)
  case 0
  then show ?case by simp
next
  case (Suc n)
  then show ?case
    by (auto simp: Let_def wf_db_insert_row(1))
qed

lemma wf_db_post_array: "wf_db d \<Longrightarrow> wf_db (snd (post_array flt clk ts d))"
  by (simp add: post_array_def wf_db_add_all split: option.splits)

lemma wf_db_post_single: "wf_db d \<Longrightarrow> wf_db (snd (post_single flt clk t d))"
  using wf_db_AddTask [of d "later 1 flt" clk "Title t" "Description t" "Position t"]
  by (auto simp: post_single_def split: sum.splits prod.splits)

lemma wf_db_POST_tasks: "wf_db d \<Longrightarrow> wf_db (snd (POST_tasks flt clk asArray asSingle d))"
  by (simp add: POST_tasks_def wf_db_post_array wf_db_post_single
      split: option.splits list.splits)

lemma wf_db_GenerateDummyTasks:
  "wf_db d \<Longrightarrow> wf_db (snd (GenerateDummyTasks flt clk n d))"
  by (simp add: GenerateDummyTasks_def Let_def wf_db_insert_loop split: sum.splits)

lemma wf_db_POST_tasks_generate:
  assumes "wf_db d"
  shows "wf_db (snd (POST_tasks_generate flt clk c d))"
proof (cases c)
  case (Count n)
  obtain e d' where g: "GenerateDummyTasks flt clk n d = (e, d')"
    by (cases "GenerateDummyTasks flt clk n d")
  with wf_db_GenerateDummyTasks [OF assms, of flt clk n] have "wf_db d'" by simp
  with Count g assms show ?thesis
    by (cases e) (simp_all add: POST_tasks_generate_def)
qed (use assms in \<open>simp_all add: POST_tasks_generate_def\<close>)

lemma wf_db_serve: "wf_db d \<Longrightarrow> wf_db (snd (serve flt clk r d))"
proof (cases r)
  case (ReqList page limit)
  assume "wf_db d"
  with ReqList show ?thesis by simp
next
  case (ReqCreate asArray asSingle)
  assume "wf_db d"
  with ReqCreate show ?thesis
    by (simp add: wf_db_POST_tasks)
next
  case (ReqGenerate c)
  assume "wf_db d"
  with ReqGenerate show ?thesis
    by (simp add: wf_db_POST_tasks_generate)
next
  case (ReqUpdate i b)
  assume "wf_db d"
  with ReqUpdate show ?thesis
    by (auto simp: PUT_task_def UpdateTask_def Let_def wf_db_update_row
        split: option.splits sum.splits)
next
  case (ReqDelete i)
  assume "wf_db d"
  with ReqDelete show ?thesis
    by (auto simp: DELETE_task_def DeleteTask_def wf_db_delete_row split: option.splits sum.splits)
next
  case ReqDeleteAll
  assume "wf_db d"
  with ReqDeleteAll show ?thesis
    by (auto simp: DELETE_tasks_def DeleteAllTasks_def delete_rows_def wf_db_def)
next
  case (ReqReorder b)
  assume "wf_db d"
  with ReqReorder show ?thesis
    by (auto simp: PATCH_tasks_reorder_def Let_def split: option.splits sum.splits
        dest: wf_db_reorder_updates)
qed

lemma wf_db_serve_all: "wf_db d \<Longrightarrow> wf_db (serve_all reqs d)"
proof (induction reqs arbitrary: d)
  case Nil
  then show ?case by simp
next
  case (Cons e reqs)
  obtain flt clk r where "e = (flt, clk, r)" by (cases e)
  with Cons.IH [OF wf_db_serve [OF Cons.prems, of flt clk r]] show ?case by simp
qed

section \<open>Position uniqueness\<close>

lemmas handler_defs =
  create_one_def create_many_def put_position_def reorder_to_def generate_def delete_one_def
  InitDB_def item_def pair_def no_faults_def ticks_def later_apply
  POST_tasks_def post_single_def post_array_def CheckPositionExists_def count_position_def
  AddTask_def insert_row_def next_rowid_def
  PUT_task_def CheckTaskExists_def count_id_def UpdateTask_def bind_put_def update_row_def
  PATCH_tasks_reorder_def update_position_def
  POST_tasks_generate_def GenerateDummyTasks_def GetLastTask_def select_last_def wrap64_def
  DELETE_task_def DeleteTask_def delete_row_def Let_def

lemma validate_all_None_free:
  "validate_all flt ts d = None \<Longrightarrow> t \<in> set ts \<Longrightarrow> Position t \<notin> set (map Position (rows d))"
proof (induction ts arbitrary: flt)
  case Nil
  then show ?case by simp
next
  case (Cons u ts)
  from Cons.prems(1) have u: "\<not> 0 < count_position (Position u) d"
    and rest: "validate_all (later 1 flt) ts d = None"
    by (auto simp: CheckPositionExists_def split: if_splits)
  show ?case
  proof (cases "t = u")
    case True
    with u show ?thesis by (simp add: count_position_pos)
  next
    case False
    with Cons.prems(2) have "t \<in> set ts" by simp
    from Cons.IH [OF rest this] show ?thesis .
  qed
qed

lemma positions_AddTask:
  "map Position (rows (snd (AddTask flt clk title description position d))) = map Position (rows d) \<or>
   map Position (rows (snd (AddTask flt clk title description position d))) =
     map Position (rows d) @ [position]"
  by (simp add: AddTask_def insert_row_def Let_def)

lemma positions_add_all:
  "\<exists>k \<le> length ts. map Position (rows (snd (add_all flt clk ts acc d))) =
      map Position (rows d) @ map Position (take k ts)"
proof (induction ts arbitrary: flt clk acc d)
  case Nil
  then show ?case by simp
next
  case (Cons t ts)
  obtain res d' where a: "AddTask flt clk (Title t) (Description t) (Position t) d = (res, d')"
    by (cases "AddTask flt clk (Title t) (Description t) (Position t) d")
  show ?case
  proof (cases res)
    case (Inl e)
    with a positions_AddTask [of flt clk "Title t" "Description t" "Position t" d]
    have "map Position (rows (snd (add_all flt clk (t # ts) acc d))) =
            map Position (rows d) @ map Position (take 0 (t # ts)) \<or>
          map Position (rows (snd (add_all flt clk (t # ts) acc d))) =
            map Position (rows d) @ map Position (take 1 (t # ts))"
      by auto
    then show ?thesis
      by (metis One_nat_def Suc_leI le0 length_Cons zero_less_Suc)
  next
    case (Inr n)
    with a have ok: "\<not> flt 0"
      by (auto simp: AddTask_def split: if_splits)
    with a Inr have d': "map Position (rows d') = map Position (rows d) @ [Position t]"
      by (auto simp: AddTask_def insert_row_def Let_def split: if_splits)
    from Cons.IH [of "later 2 flt" "later 4 clk" "acc @ [n]" d']
    obtain k where k: "k \<le> length ts"
      "map Position (rows (snd (add_all (later 2 flt) (later 4 clk) ts (acc @ [n]) d'))) =
         map Position (rows d') @ map Position (take k ts)"
      by blast
    with a Inr d' have "Suc k \<le> length (t # ts) \<and>
        map Position (rows (snd (add_all flt clk (t # ts) acc d))) =
          map Position (rows d) @ map Position (take (Suc k) (t # ts))"
      by simp
    then show ?thesis by blast
  qed
qed

lemma disjoint_keys:
  assumes free: "\<And>t. t \<in> set ys \<Longrightarrow> f t \<notin> set (map f xs)"
  shows "set (map f xs) \<inter> set (map f ys) = {}"
proof (rule equals0I)
  fix p
  assume "p \<in> set (map f xs) \<inter> set (map f ys)"
  then have px: "p \<in> set (map f xs)" and "p \<in> f ` set ys"
    by simp_all
  then obtain t where "t \<in> set ys" and "p = f t"
    by (elim imageE)
  with free [of t] px show False by simp
qed

lemma unique_post_array:
  assumes "unique_positions d" and "distinct (map Position ts)"
  shows "unique_positions (snd (post_array flt clk ts d))"
proof (cases "validate_all flt ts d")
  case (Some resp)
  with assms(1) show ?thesis by (simp add: post_array_def)
next
  case None
  from positions_add_all [of ts "later (length ts) flt" clk "[]" d]
  obtain k where k: "map Position (rows (snd (add_all (later (length ts) flt) clk ts [] d))) =
      map Position (rows d) @ map Position (take k ts)"
    by blast
  have "distinct (map Position (take k ts))"
    using assms(2) by (simp add: take_map [symmetric] distinct_take)
  moreover have "set (map Position (rows d)) \<inter> set (map Position (take k ts)) = {}"
  proof -
    have free: "Position t \<notin> set (map Position (rows d))" if "t \<in> set (take k ts)" for t
      using validate_all_None_free [OF None, of t] that by (auto dest: in_set_takeD)
    then show ?thesis by (rule disjoint_keys)
  qed
  ultimately show ?thesis
    using assms(1) None k by (simp add: post_array_def unique_positions_def)
qed

lemma unique_post_single:
  assumes "unique_positions d"
  shows "unique_positions (snd (post_single flt clk t d))"
  using assms positions_AddTask [of "later 1 flt" clk "Title t" "Description t" "Position t" d]
  by (auto simp: post_single_def unique_positions_def CheckPositionExists_def count_position_pos
      split: prod.splits sum.splits)

lemma unique_DELETE_task:
  "unique_positions d \<Longrightarrow> unique_positions (snd (DELETE_task flt i d))"
  by (auto simp: DELETE_task_def DeleteTask_def delete_row_def unique_positions_def
      distinct_map_filter split: option.splits sum.splits)

lemma unique_DELETE_tasks:
  "unique_positions (snd (DELETE_tasks flt d)) = (flt 0 \<longrightarrow> unique_positions d)"
  by (simp add: DELETE_tasks_def DeleteAllTasks_def delete_rows_def unique_positions_def)

lemma unique_serve:
  assumes "position_checked r" and "unique_positions d"
  shows "unique_positions (snd (serve flt clk r d))"
proof (cases r)
  case (ReqCreate asArray asSingle)
  show ?thesis
  proof (cases asArray)
    case None
    with ReqCreate assms(2) show ?thesis
      by (auto simp: POST_tasks_def unique_post_single split: option.splits)
  next
    case (Some ts)
    with ReqCreate assms(1) have "distinct (map Position ts)" by simp
    with ReqCreate Some assms(2) show ?thesis
      by (cases ts) (auto simp: POST_tasks_def unique_post_single unique_post_array split: option.splits)
  qed
qed (use assms in \<open>simp_all add: unique_DELETE_task unique_DELETE_tasks\<close>)

text \<open>
  C1, as the code has it. Position uniqueness is kept by the requests whose writes are
  all guarded by the position check: listing, deleting one or all tasks, creating a
  single task, and creating an array of tasks whose positions are pairwise distinct.
  Starting from pairwise distinct positions, no state committed by a sequence of such
  requests holds a position twice, whatever database calls fail on the way.
\<close>

theorem checked_requests_keep_positions_unique:
  assumes "\<forall>e \<in> set reqs. position_checked (snd (snd e))" and "unique_positions d"
  shows "unique_positions (serve_all reqs d)"
  using assms
proof (induction reqs arbitrary: d)
  case Nil
  then show ?case by simp
next
  case (Cons e reqs)
  obtain flt clk r where e: "e = (flt, clk, r)"
    by (cases e)
  with Cons.prems have "position_checked r" by simp
  from unique_serve [OF this Cons.prems(2)] have "unique_positions (snd (serve flt clk r d))" .
  with Cons.IH [of "snd (serve flt clk r d)"] Cons.prems(1) e show ?case by simp
qed


theorem checked_requests_keep_positions_unique_witness:
  "list_all (\<lambda>e. position_checked (snd (snd e)))
     [create_one ''A'' 1, create_many [item ''B'' 2, item ''C'' 3], delete_one 1] \<and>
   unique_positions InitDB \<and>
   unique_positions
     (serve_all [create_one ''A'' 1, create_many [item ''B'' 2, item ''C'' 3], delete_one 1] InitDB) \<and>
   map Position
     (rows (serve_all [create_one ''A'' 1, create_many [item ''B'' 2, item ''C'' 3], delete_one 1]
              InitDB)) = [2, 3]"
  using checked_requests_keep_positions_unique
          [of "[create_one ''A'' 1, create_many [item ''B'' 2, item ''C'' 3], delete_one 1]" InitDB]
  by (simp add: handler_defs unique_positions_def)

text \<open>
  C1, as stated, fails: update, reorder and generate write positions without looking
  at the stored ones, and the array create does not compare the items of one request.
  Each of the four sequences below starts from the empty table and commits a state in
  which two tasks share a position.
\<close>

theorem positions_not_unique_counterexample:
  "unique_positions InitDB \<and>
   \<not> unique_positions (serve_all [create_one ''A'' 1, create_one ''B'' 2, put_position 2 1] InitDB) \<and>
   \<not> unique_positions (serve_all [create_one ''A'' 1, create_one ''B'' 2, reorder_to 2 1] InitDB) \<and>
   \<not> unique_positions (serve_all [create_one ''A'' 2, create_one ''B'' 1, generate 1] InitDB) \<and>
   \<not> unique_positions (serve_all [create_many [item ''A'' 7, item ''B'' 7]] InitDB)"
  by (simp add: handler_defs unique_positions_def)

end
